(* ===== verification/Prelude.thy ===== *)
theory Prelude
  imports Main "HOL-Library.Char_ord" "HOL-Library.List_Lexorder"
    "HOL-Library.Product_Lexorder" "HOL-Library.Multiset" "HOL-Library.Sublist"
begin

text \<open>
  The JavaScript runtime operations the store in
  \<^verbatim>\<open>src/src/js/renderer/store/explorer.js\<close> relies on, written once so that every
  component theory uses the same semantics: \<open>Array.prototype.slice\<close> with its
  negative-index rule, array indexing that yields \<open>undefined\<close> out of range,
  \<open>findIndex\<close>, \<open>String.prototype.indexOf\<close> and \<open>toLowerCase\<close>, the three-way
  comparison the sort callback computes, and a stable \<open>Array.prototype.sort\<close>
  (stable since ES2019). These are semantics of the language, not code of the
  repository. Strings are \<open>char list\<close>; \<open>char\<close> has 256 values, read as UTF-16 code
  units below 256 (Latin-1), and JS string comparison is the lexicographic order of
  \<open>HOL-Library.List_Lexorder\<close> on them.
\<close>

named_theorems js_simps \<open>equations of the JavaScript runtime model\<close>

section \<open>Arrays\<close>

text \<open>\<open>xs.slice(s, e)\<close>: a negative bound counts from the end, bounds are clamped.\<close>

definition js_bound :: "int \<Rightarrow> int \<Rightarrow> int" where
  "js_bound len i = (if i < 0 then max (len + i) 0 else min i len)"

definition js_slice :: "'a list \<Rightarrow> int \<Rightarrow> int \<Rightarrow> 'a list" where
  "js_slice xs s e =
     (let len = int (length xs); s' = js_bound len s; e' = js_bound len e
      in take (nat (e' - s')) (drop (nat s') xs))"

text \<open>\<open>xs[i]\<close>: \<open>undefined\<close> (here \<open>None\<close>) outside \<open>[0, length)\<close>.\<close>

definition js_nth :: "'a list \<Rightarrow> int \<Rightarrow> 'a option" where
  "js_nth xs i = (if 0 \<le> i \<and> i < int (length xs) then Some (xs ! nat i) else None)"

text \<open>\<open>xs.findIndex(p)\<close>: the first index satisfying \<open>p\<close>, or \<open>-1\<close>.\<close>

fun js_find_index :: "('a \<Rightarrow> bool) \<Rightarrow> 'a list \<Rightarrow> int" where
  "js_find_index p [] = -1"
| "js_find_index p (x # xs) =
     (if p x then 0 else (let i = js_find_index p xs in if i < 0 then -1 else i + 1))"

section \<open>Strings\<close>

fun starts_with :: "string \<Rightarrow> string \<Rightarrow> bool" where
  "starts_with [] q = (q = [])"
| "starts_with (c # cs) q = (case q of [] \<Rightarrow> True | d # ds \<Rightarrow> c = d \<and> starts_with cs ds)"

text \<open>\<open>s.indexOf(q)\<close>, searching from position \<open>i\<close> of the original string.\<close>

fun js_index_of_from :: "string \<Rightarrow> string \<Rightarrow> nat \<Rightarrow> int" where
  "js_index_of_from [] q i = (if q = [] then int i else -1)"
| "js_index_of_from (c # cs) q i =
     (if starts_with (c # cs) q then int i else js_index_of_from cs q (Suc i))"

definition js_index_of :: "string \<Rightarrow> string \<Rightarrow> int" where
  "js_index_of s q = js_index_of_from s q 0"

text \<open>\<open>toLowerCase\<close> on the code units below 256: \<open>A\<close>..\<open>Z\<close> and
  \<open>U+00C0\<close>..\<open>U+00DE\<close> except the multiplication sign \<open>U+00D7\<close> map 32 places up.\<close>

definition js_lower_char :: "char \<Rightarrow> char" where
  "js_lower_char c =
     (let n = (of_char c :: nat)
      in if (65 \<le> n \<and> n \<le> 90) \<or> (192 \<le> n \<and> n \<le> 222 \<and> n \<noteq> 215)
         then char_of (n + 32) else c)"

definition js_lower :: "string \<Rightarrow> string" where
  "js_lower s = map js_lower_char s"

section \<open>Comparison and sorting\<close>

text \<open>\<open>a > b ? 1 : a < b ? -1 : 0\<close>, the comparison the sort callback computes.\<close>

definition cmp3 :: "'a::linorder \<Rightarrow> 'a \<Rightarrow> int" where
  "cmp3 x y = (if x > y then 1 else if x < y then -1 else 0)"

text \<open>A stable sort driven by a comparator, as \<open>Array.prototype.sort\<close> with a
  consistent comparator: insertion keeps an element before the later ones it does not
  exceed.\<close>

fun js_insort :: "('a \<Rightarrow> 'a \<Rightarrow> int) \<Rightarrow> 'a \<Rightarrow> 'a list \<Rightarrow> 'a list" where
  "js_insort cmp x [] = [x]"
| "js_insort cmp x (y # ys) = (if cmp x y \<le> 0 then x # y # ys else y # js_insort cmp x ys)"

definition js_sort :: "('a \<Rightarrow> 'a \<Rightarrow> int) \<Rightarrow> 'a list \<Rightarrow> 'a list" where
  "js_sort cmp xs = foldr (js_insort cmp) xs []"

section \<open>Lemmas on the runtime model\<close>

lemma js_slice_prefix [js_simps]:
  "0 \<le> i \<Longrightarrow> js_slice xs 0 i = take (nat i) xs"
  by (auto simp add: js_slice_def js_bound_def Let_def min_def)

lemma js_slice_suffix [js_simps]:
  "-1 \<le> i \<Longrightarrow> js_slice xs (i + 1) (int (length xs)) = drop (nat (i + 1)) xs"
  by (auto simp add: js_slice_def js_bound_def Let_def min_def nat_diff_distrib)

lemma js_slice_prefix_neg:
  "i < 0 \<Longrightarrow> js_slice xs 0 i = take (nat (int (length xs) + i)) xs"
  by (auto simp add: js_slice_def js_bound_def Let_def max_def)

lemma js_nth_Some [js_simps]:
  "0 \<le> i \<Longrightarrow> i < int (length xs) \<Longrightarrow> js_nth xs i = Some (xs ! nat i)"
  by (simp add: js_nth_def)

lemma js_nth_None [js_simps]:
  "i < 0 \<or> int (length xs) \<le> i \<Longrightarrow> js_nth xs i = None"
  by (auto simp add: js_nth_def)

lemma js_nth_eq_None_iff:
  "js_nth xs i = None \<longleftrightarrow> i < 0 \<or> int (length xs) \<le> i"
  by (auto simp add: js_nth_def)

lemma take_upd_drop_eq [js_simps]:
  "i < length xs \<Longrightarrow> take i xs @ h # drop (Suc i) xs = xs[i := h]"
  by (simp add: upd_conv_take_nth_drop)

lemma js_find_index_ge: "-1 \<le> js_find_index p xs"
  by (induction xs) (auto simp: Let_def)

lemma js_find_index_less: "js_find_index p xs < int (length xs)"
  by (induction xs) (auto simp: Let_def)

lemma js_find_index_found:
  "0 \<le> js_find_index p xs \<Longrightarrow> p (xs ! nat (js_find_index p xs))"
proof (induction xs)
  case Nil
  then show ?case by simp
next
  case (Cons x xs)
  show ?case
  proof (cases "p x")
    case True
    then show ?thesis by simp
  next
    case False
    with Cons.prems have ge: "0 \<le> js_find_index p xs"
      by (auto simp: Let_def split: if_splits)
    then have "nat (js_find_index p xs + 1) = Suc (nat (js_find_index p xs))"
      by simp
    with False ge Cons.IH show ?thesis by (simp add: Let_def)
  qed
qed

lemma js_find_index_neg: "js_find_index p xs < 0 \<longleftrightarrow> (\<forall>x \<in> set xs. \<not> p x)"
  by (induction xs) (auto simp: Let_def)

lemma js_find_index_first:
  "j < nat (js_find_index p xs) \<Longrightarrow> \<not> p (xs ! j)"
proof (induction xs arbitrary: j)
  case Nil
  then show ?case by simp
next
  case (Cons x xs)
  then show ?case
    by (cases j) (auto simp: Let_def nat_add_distrib js_find_index_ge split: if_splits)
qed

lemma js_find_index_distinct:
  "distinct (map f xs) \<Longrightarrow> j < length xs \<Longrightarrow> js_find_index (\<lambda>x. f (xs ! j) = f x) xs = int j"
proof (induction xs arbitrary: j)
  case Nil
  then show ?case by simp
next
  case (Cons x xs)
  show ?case
  proof (cases j)
    case 0
    then show ?thesis by simp
  next
    case (Suc j')
    with Cons.prems have j': "j' < length xs" by simp
    then have "f (xs ! j') \<in> f ` set xs" by simp
    with Cons.prems(1) have "f (xs ! j') \<noteq> f x" by auto
    with Suc j' Cons show ?thesis by (simp add: Let_def)
  qed
qed

lemma starts_with_prefix: "starts_with s q \<longleftrightarrow> prefix q s"
  by (induction s arbitrary: q) (auto split: list.splits)

lemma js_index_of_from_sublist:
  "0 \<le> js_index_of_from s q i \<longleftrightarrow> sublist q s"
  by (induction s arbitrary: i) (auto simp: starts_with_prefix sublist_Cons_right)

lemma js_index_of_sublist [js_simps]: "-1 < js_index_of s q \<longleftrightarrow> sublist q s"
  using js_index_of_from_sublist [of s q 0] by (auto simp add: js_index_of_def)

lemma cmp3_le_0 [simp]: "cmp3 x y \<le> 0 \<longleftrightarrow> x \<le> y"
  by (auto simp: cmp3_def)

lemma cmp3_eq_0 [simp]: "cmp3 x y = 0 \<longleftrightarrow> x = y"
  by (auto simp: cmp3_def)

lemma cmp3_neg [simp]: "- cmp3 x y = cmp3 y x"
  by (auto simp add: cmp3_def dest: order.asym)

lemma cmp3_mult_neg [simp]: "-1 * cmp3 x y = cmp3 y x"
  by (auto simp add: cmp3_def dest: order.asym)

lemma mset_js_insort [simp]: "mset (js_insort cmp x xs) = add_mset x (mset xs)"
  by (induction xs) auto

lemma mset_js_sort [simp]: "mset (js_sort cmp xs) = mset xs"
  by (induction xs) (simp_all add: js_sort_def)

lemma set_js_insort [simp]: "set (js_insort cmp x xs) = insert x (set xs)"
  by (induction xs) auto

lemma js_insort_key:
  "js_insort (\<lambda>a b. cmp3 (f a) (f b)) x xs = insort_key f x xs"
  by (induction xs) auto

lemma js_sort_key: "js_sort (\<lambda>a b. cmp3 (f a) (f b)) xs = sort_key f xs"
  by (induction xs) (simp_all add: js_sort_def js_insort_key)

text \<open>With a comparator whose non-positive part is total and transitive, the result is
  ordered by it.\<close>

lemma js_sort_sorted_id:
  "sorted_wrt (\<lambda>a b. cmp a b \<le> 0) xs \<Longrightarrow> js_sort cmp xs = xs"
proof (induction xs)
  case Nil
  then show ?case by (simp add: js_sort_def)
next
  case (Cons x xs)
  then have "js_sort cmp xs = xs" by simp
  with Cons.prems show ?case by (cases xs) (simp_all add: js_sort_def)
qed

lemma sorted_wrt_js_insort:
  assumes total: "\<And>a b. cmp a b \<le> 0 \<or> cmp b a \<le> 0"
    and trans: "\<And>a b c. cmp a b \<le> 0 \<Longrightarrow> cmp b c \<le> 0 \<Longrightarrow> cmp a c \<le> 0"
    and sorted: "sorted_wrt (\<lambda>a b. cmp a b \<le> 0) xs"
  shows "sorted_wrt (\<lambda>a b. cmp a b \<le> 0) (js_insort cmp x xs)"
  using sorted
proof (induction xs)
  case Nil
  then show ?case by simp
next
  case (Cons y ys)
  show ?case
  proof (cases "cmp x y \<le> 0")
    case True
    with Cons.prems show ?thesis by (auto intro: trans)
  next
    case False
    with total have "cmp y x \<le> 0" by blast
    with False Cons show ?thesis by auto
  qed
qed

lemma sorted_wrt_js_sort:
  assumes "\<And>a b. cmp a b \<le> 0 \<or> cmp b a \<le> 0"
    and "\<And>a b c. cmp a b \<le> 0 \<Longrightarrow> cmp b c \<le> 0 \<Longrightarrow> cmp a c \<le> 0"
  shows "sorted_wrt (\<lambda>a b. cmp a b \<le> 0) (js_sort cmp xs)"
  by (induction xs) (simp_all add: js_sort_def sorted_wrt_js_insort assms)

end
