(* ===== verification/Listing.thy ===== *)
theory Listing
  imports Prelude
begin

text \<open>
  The collaborators the store calls but that are not part of the store: the
  \<^verbatim>\<open>File\<close> utility of \<^verbatim>\<open>src/js/renderer/utils/file\<close> (\<open>File.listFiles\<close>,
  \<open>isDirectory\<close>, \<open>isImage\<close>, \<open>parent.path\<close>, \<open>toObject\<close>), Node's \<open>fs.watch\<close>,
  Electron's \<open>shell.openItem\<close> and \<open>remote.app.getPath('home')\<close>. Their code is
  not among the sources, so they are modelled from the specification (section 6):
  a listing either yields entries or throws (\<open>None\<close>), a watch can be armed on a
  path or throws, opening a path in the shell succeeds or not. The file system is a
  record of these observations, so that an environment step may replace it.
\<close>

text \<open>An entry of a listing (a \<open>File\<close> object, and the plain object \<open>toObject\<close>
  makes of it: the store reads \<open>path\<close>, \<open>name\<close>, \<open>size\<close> and \<open>mtime\<close>). The size
  field is \<open>fsize\<close>, since \<open>size\<close> is a constant of HOL.\<close>

record entry =
  path :: string
  name :: string
  isDirectory :: bool
  isImage :: bool
  fsize :: int
  mtime :: int

record fsys =
  fs_list :: "string \<Rightarrow> entry list option"
  fs_list_rec :: "string \<Rightarrow> entry list option"
  fs_watchable :: "string \<Rightarrow> bool"
  fs_is_dir :: "string \<Rightarrow> bool"
  fs_open :: "string \<Rightarrow> bool"
  fs_home :: string

text \<open>The parent path of \<open>new File(p).parent.path\<close>, as Node's POSIX
  \<open>path.dirname\<close>: trailing slashes are ignored, the root is its own parent and a
  bare name has parent \<open>.\<close>.\<close>

definition strip_slashes :: "string \<Rightarrow> string" where
  "strip_slashes s = rev (dropWhile (\<lambda>c. c = CHR ''/'') (rev s))"

definition parent_path :: "string \<Rightarrow> string" where
  "parent_path p =
     (let t = strip_slashes p in
      if t = [] then (if p = [] then ''.'' else ''/'')
      else (let d = rev (dropWhile (\<lambda>c. c \<noteq> CHR ''/'') (rev t)) in
            if d = [] then ''.''
            else (let d' = strip_slashes d in if d' = [] then ''/'' else d')))"

text \<open>\<open>File.listFiles(dir).filter(f \<Rightarrow> f.isDirectory() || f.isImage())
  .map(f \<Rightarrow> f.toObject())\<close>: the listing \<open>load\<close> stores, \<open>None\<close> where
  \<open>listFiles\<close> throws.\<close>

definition list_items :: "fsys \<Rightarrow> string \<Rightarrow> entry list option" where
  "list_items fs p = map_option (filter (\<lambda>f. isDirectory f \<or> isImage f)) (fs_list fs p)"

lemma parent_path_examples:
  "parent_path ''/a/b'' = ''/a''" "parent_path ''/a'' = ''/''" "parent_path ''/'' = ''/''"
  "parent_path ''/a/b/'' = ''/a''"
  by (simp_all add: parent_path_def strip_slashes_def)

lemma list_items_kinds:
  "list_items fs p = Some xs \<Longrightarrow> f \<in> set xs \<Longrightarrow> isDirectory f \<or> isImage f"
  by (auto simp: list_items_def)

end
