(* ===== verification/Store.thy ===== *)
theory Store
  imports Listing
begin

text \<open>
  The data of the Vuex module \<^verbatim>\<open>explorer\<close> (\<^verbatim>\<open>src/src/js/renderer/store/explorer.js\<close>):
  its \<open>state\<close> (lines 15--24) as the record \<open>estate\<close>, the history records and sort
  options it holds, and its \<open>mutations\<close> (lines 189--223), one definition each. A
  mutation replaces one field; \<open>setHistory\<close> rebuilds the array from two
  \<open>slice\<close>s around the new record, with the runtime's negative-index rule.
  Values the code can leave \<open>undefined\<close> are options: a history record built by
  \<open>setScrollTop\<close> from a missing record has no \<open>directory\<close>, and
  \<open>directoryInput\<close> is copied from such a record.
\<close>

record hist =
  directory :: "string option"
  scrollTop :: int

text \<open>The sort keys the view offers and the reversal table \<open>sortReversed\<close>
  (lines 5--9).\<close>

datatype sort_field = Name | Size | Mtime

record sort_option =
  key :: sort_field
  descending :: bool

record estate =
  items :: "entry list"
  directoryInput :: "string option"
  query :: string
  queryInput :: string
  selectedFilepath :: string
  histories :: "hist list"
  historyIndex :: int
  sortOptions :: "string \<Rightarrow> sort_option option"

definition init_state :: estate where
  "init_state =
     \<lparr>items = [], directoryInput = Some [], query = [], queryInput = [],
      selectedFilepath = [], histories = [], historyIndex = -1, sortOptions = Map.empty\<rparr>"

named_theorems mutation_simps \<open>the mutations of the explorer module\<close>

definition setItems :: "entry list \<Rightarrow> estate \<Rightarrow> estate" where
  [mutation_simps]: "setItems xs st = st\<lparr>items := xs\<rparr>"

definition setDirectoryInput :: "string option \<Rightarrow> estate \<Rightarrow> estate" where
  [mutation_simps]: "setDirectoryInput d st = st\<lparr>directoryInput := d\<rparr>"

definition setQuery :: "string \<Rightarrow> estate \<Rightarrow> estate" where
  [mutation_simps]: "setQuery q st = st\<lparr>query := q\<rparr>"

definition setQueryInput :: "string \<Rightarrow> estate \<Rightarrow> estate" where
  [mutation_simps]: "setQueryInput q st = st\<lparr>queryInput := q\<rparr>"

definition setSelectedFilepath :: "string \<Rightarrow> estate \<Rightarrow> estate" where
  [mutation_simps]: "setSelectedFilepath p st = st\<lparr>selectedFilepath := p\<rparr>"

definition setHistory :: "hist \<Rightarrow> int \<Rightarrow> estate \<Rightarrow> estate" where
  [mutation_simps]: "setHistory h i st =
     st\<lparr>histories := js_slice (histories st) 0 i @ [h] @
                     js_slice (histories st) (i + 1) (int (length (histories st)))\<rparr>"

definition setHistories :: "hist list \<Rightarrow> estate \<Rightarrow> estate" where
  [mutation_simps]: "setHistories hs st = st\<lparr>histories := hs\<rparr>"

definition setHistoryIndex :: "int \<Rightarrow> estate \<Rightarrow> estate" where
  [mutation_simps]: "setHistoryIndex i st = st\<lparr>historyIndex := i\<rparr>"

definition setSortOption :: "sort_option \<Rightarrow> string \<Rightarrow> estate \<Rightarrow> estate" where
  [mutation_simps]: "setSortOption opt k st = st\<lparr>sortOptions := (sortOptions st)(k \<mapsto> opt)\<rparr>"

section \<open>The world the actions run in\<close>

text \<open>
  An action reads and writes more than the module state: \<open>rootState.directory\<close>
  (written by the root mutation \<open>setDirectory\<close>), the module-level variable
  \<open>watcher\<close> (line 11) holding the last \<open>fs.watch\<close> handle, the watches the OS
  has open (handles are numbered in the order they are armed), the file system, and
  what it asks of the view, the notifier, the viewer and the shell, recorded in order
  as effects.
\<close>

datatype effect =
    FocusExplorerTable
  | ShowMessage string
  | ViewerShow "string list" "string option"
  | OpenItem string

record world =
  es :: estate
  rootDirectory :: "string option"
  watcher :: "nat option"
  live :: "(nat \<times> string) list"
  next_handle :: nat
  fs :: fsys
  out :: "effect list"

text \<open>An exception thrown by an action: a \<open>TypeError\<close> from reading a field of
  \<open>undefined\<close>, or a listing error that nothing catches. A throw leaves the mutations
  already committed in place, so the result carries the state at the throw.\<close>

datatype exc = TypeError | ListError

datatype 'a res = Ok 'a | Exc exc 'a

primrec res_state :: "'a res \<Rightarrow> 'a" where
  "res_state (Ok s) = s"
| "res_state (Exc e s) = s"

primrec res_bind :: "'a res \<Rightarrow> ('a \<Rightarrow> 'a res) \<Rightarrow> 'a res" where
  "res_bind (Ok s) f = f s"
| "res_bind (Exc e s) f = Exc e s"

definition commit :: "(estate \<Rightarrow> estate) \<Rightarrow> world \<Rightarrow> world" where
  [mutation_simps]: "commit m w = w\<lparr>es := m (es w)\<rparr>"

definition emit :: "effect \<Rightarrow> world \<Rightarrow> world" where
  "emit e w = w\<lparr>out := out w @ [e]\<rparr>"

text \<open>The root store's mutation \<open>setDirectory\<close> (not among the sources).\<close>

definition setDirectory :: "string option \<Rightarrow> world \<Rightarrow> world" where
  [mutation_simps]: "setDirectory d w = w\<lparr>rootDirectory := d\<rparr>"

definition init_world :: "string option \<Rightarrow> fsys \<Rightarrow> world" where
  "init_world d fs0 =
     \<lparr>es = init_state, rootDirectory = d, watcher = None, live = [], next_handle = 0,
      fs = fs0, out = []\<rparr>"

lemma res_state_bind_Ok: "res_bind r f = Ok w' \<Longrightarrow> \<exists>w. r = Ok w \<and> f w = Ok w'"
  by (cases r) auto

lemma emit_es [simp]: "es (emit e w) = es w"
  by (simp add: emit_def)

lemma emit_rootDirectory [simp]: "rootDirectory (emit e w) = rootDirectory w"
  by (simp add: emit_def)

lemma emit_watch [simp]:
  "watcher (emit e w) = watcher w" "live (emit e w) = live w"
  "next_handle (emit e w) = next_handle w"
  by (simp_all add: emit_def)

text \<open>Within range, \<open>setHistory\<close> is the list update at the index; this is the only
  fact about it the navigation proofs use.\<close>

lemma setHistory_in_range:
  assumes "0 \<le> i" and "i < int (length (histories st))"
  shows "histories (setHistory h i st) = (histories st)[nat i := h]"
proof -
  have "js_slice (histories st) (i + 1) (int (length (histories st))) =
        drop (Suc (nat i)) (histories st)"
    using assms by (simp add: js_slice_suffix nat_add_distrib)
  with assms show ?thesis
    by (simp add: setHistory_def js_slice_prefix take_upd_drop_eq nat_less_iff)
qed

lemma setHistory_length:
  assumes "0 \<le> i" and "i < int (length (histories st))"
  shows "length (histories (setHistory h i st)) = length (histories st)"
  using setHistory_in_range [OF assms] by simp

end
