(* ===== verification/History.thy ===== *)
theory History
  imports Store
begin

text \<open>
  The HistoryStack of \<^verbatim>\<open>explorer.js\<close>: the array \<open>histories\<close> with its cursor
  \<open>historyIndex\<close>, the getters \<open>backDirectories\<close>, \<open>forwardDirectories\<close>,
  \<open>canBackDirectory\<close>, \<open>canForwardDirectory\<close> and \<open>scrollTop\<close> (lines 226--240,
  the last as \<open>get_scrollTop\<close>, since the record field has that name), and the
  action \<open>setScrollTop\<close> (lines 133--139). The push and the moves of the cursor
  belong to the navigation actions (theory \<open>Navigation\<close>).

  \<open>hist_wf\<close> is the well-formedness the specification states (section 3): the
  cursor is \<open>-1\<close> exactly on the empty stack and indexes a record otherwise, and every
  record names a directory. The lemmas read the getters on a well-formed stack and
  show what \<open>setScrollTop\<close> does in range and on the empty stack.
\<close>

definition backDirectories :: "estate \<Rightarrow> string option list" where
  "backDirectories st = map directory (rev (js_slice (histories st) 0 (historyIndex st)))"

definition forwardDirectories :: "estate \<Rightarrow> string option list" where
  "forwardDirectories st =
     map directory (js_slice (histories st) (historyIndex st + 1) (int (length (histories st))))"

definition canBackDirectory :: "estate \<Rightarrow> bool" where
  "canBackDirectory st \<longleftrightarrow> historyIndex st > 0"

definition canForwardDirectory :: "estate \<Rightarrow> bool" where
  "canForwardDirectory st \<longleftrightarrow> historyIndex st < int (length (histories st)) - 1"

text \<open>Reading \<open>.scrollTop\<close> of a missing record throws: \<open>None\<close>.\<close>

definition get_scrollTop :: "estate \<Rightarrow> int option" where
  "get_scrollTop st = map_option scrollTop (js_nth (histories st) (historyIndex st))"

text \<open>\<open>{...state.histories[state.historyIndex], scrollTop}\<close>: spreading
  \<open>undefined\<close> gives an object with \<open>scrollTop\<close> alone.\<close>

definition setScrollTop :: "int \<Rightarrow> world \<Rightarrow> world" where
  "setScrollTop v w =
     (let history = (case js_nth (histories (es w)) (historyIndex (es w)) of
                       Some h \<Rightarrow> h\<lparr>scrollTop := v\<rparr>
                     | None \<Rightarrow> \<lparr>directory = None, scrollTop = v\<rparr>)
      in commit (setHistory history (historyIndex (es w))) w)"

definition hist_wf :: "estate \<Rightarrow> bool" where
  "hist_wf st \<longleftrightarrow>
     (if histories st = [] then historyIndex st = -1
      else 0 \<le> historyIndex st \<and> historyIndex st < int (length (histories st))) \<and>
     (\<forall>h \<in> set (histories st). directory h \<noteq> None)"

text \<open>The current record of a non-empty well-formed stack.\<close>

definition current :: "estate \<Rightarrow> hist" where
  "current st = histories st ! nat (historyIndex st)"

lemma hist_wf_init: "hist_wf init_state"
  by (simp add: hist_wf_def init_state_def)

lemma hist_wf_index:
  "hist_wf st \<Longrightarrow> histories st \<noteq> [] \<Longrightarrow>
   0 \<le> historyIndex st \<and> historyIndex st < int (length (histories st))"
  by (simp add: hist_wf_def)

lemma hist_wf_index_ge: "hist_wf st \<Longrightarrow> -1 \<le> historyIndex st"
  by (auto simp: hist_wf_def split: if_splits)

lemma hist_wf_index_less: "hist_wf st \<Longrightarrow> historyIndex st < int (length (histories st))"
  by (auto simp: hist_wf_def split: if_splits)

lemma forwardDirectories_wf:
  "hist_wf st \<Longrightarrow>
   forwardDirectories st = map directory (drop (nat (historyIndex st + 1)) (histories st))"
  by (simp add: forwardDirectories_def js_slice_suffix hist_wf_index_ge)

lemma forwardDirectories_tail:
  "historyIndex st = int (length (histories st)) - 1 \<Longrightarrow> forwardDirectories st = []"
  by (simp add: forwardDirectories_def js_slice_def js_bound_def)

lemma backDirectories_wf:
  "hist_wf st \<Longrightarrow> 0 \<le> historyIndex st \<Longrightarrow>
   backDirectories st = rev (map directory (take (nat (historyIndex st)) (histories st)))"
  by (simp add: backDirectories_def js_slice_prefix rev_map)

lemma js_nth_current:
  "hist_wf st \<Longrightarrow> histories st \<noteq> [] \<Longrightarrow>
   js_nth (histories st) (historyIndex st) = Some (current st)"
  by (simp add: js_nth_Some hist_wf_index current_def)

lemma get_scrollTop_wf:
  "hist_wf st \<Longrightarrow> histories st \<noteq> [] \<Longrightarrow> get_scrollTop st = Some (scrollTop (current st))"
  by (simp add: get_scrollTop_def js_nth_current)

text \<open>C19: on a non-empty well-formed stack \<open>setScrollTop\<close> replaces the scroll
  offset of the current record and nothing else: the cursor, the length and the other
  records are unchanged, and the stack stays well-formed.\<close>

theorem setScrollTop_in_range:
  assumes wf: "hist_wf (es w)" and ne: "histories (es w) \<noteq> []"
  shows "histories (es (setScrollTop v w)) =
           (histories (es w))[nat (historyIndex (es w)) := (current (es w))\<lparr>scrollTop := v\<rparr>] \<and>
         historyIndex (es (setScrollTop v w)) = historyIndex (es w) \<and>
         hist_wf (es (setScrollTop v w))"
proof -
  let ?st = "es w" and ?i = "historyIndex (es w)"
  have r: "0 \<le> ?i" "?i < int (length (histories ?st))"
    using hist_wf_index [OF wf ne] by auto
  have h: "histories (es (setScrollTop v w)) =
             (histories ?st)[nat ?i := (current ?st)\<lparr>scrollTop := v\<rparr>]"
    using r by (simp add: setScrollTop_def js_nth_current [OF wf ne] commit_def setHistory_in_range)
  have i: "historyIndex (es (setScrollTop v w)) = ?i"
    by (simp add: setScrollTop_def Let_def commit_def setHistory_def)
  have "directory (current ?st) \<noteq> None"
    using wf ne r by (simp add: hist_wf_def current_def)
  then have "\<forall>h \<in> set (histories (es (setScrollTop v w))). directory h \<noteq> None"
    using wf h by (auto simp: hist_wf_def dest: set_update_subset_insert [THEN subsetD])
  with h i r ne show ?thesis by (simp add: hist_wf_def)
qed

text \<open>C20: on the empty stack of a fresh store, \<open>setScrollTop\<close> does not fail but
  creates a record with no directory, and the stack is no longer well-formed (the cursor
  stays \<open>-1\<close> while the stack is not empty).\<close>

theorem setScrollTop_empty:
  assumes "histories (es w) = []" and "historyIndex (es w) = -1"
  shows "histories (es (setScrollTop v w)) = [\<lparr>directory = None, scrollTop = v\<rparr>] \<and>
         \<not> hist_wf (es (setScrollTop v w))"
  using assms
  by (simp add: setScrollTop_def commit_def setHistory_def js_slice_def js_bound_def js_nth_def
      hist_wf_def)

text \<open>C26: on a non-empty well-formed stack the back list (nearest first), the current
  record and the forward list reassemble the whole stack.\<close>

theorem history_partition:
  assumes "hist_wf st" and "histories st \<noteq> []"
  shows "rev (backDirectories st) @ [directory (current st)] @ forwardDirectories st =
         map directory (histories st)"
proof -
  let ?i = "nat (historyIndex st)" and ?hs = "histories st"
  have r: "0 \<le> historyIndex st" "?i < length ?hs" using hist_wf_index [OF assms] by auto
  have "take ?i ?hs @ [?hs ! ?i] @ drop (Suc ?i) ?hs = ?hs"
    using r(2) by (simp add: id_take_nth_drop [symmetric])
  then have "map directory (take ?i ?hs) @ [directory (?hs ! ?i)] @ map directory (drop (Suc ?i) ?hs) =
             map directory ?hs"
    by (metis append_Cons append_Nil map_append list.simps(9))
  moreover have "nat (historyIndex st + 1) = Suc ?i" using r(1) by simp
  ultimately show ?thesis
    using assms r by (simp add: backDirectories_wf forwardDirectories_wf current_def)
qed

end
