(* ===== verification/Sorting.thy ===== *)
theory Sorting
  imports Store
begin

text \<open>
  The SortEngine of \<^verbatim>\<open>explorer.js\<close>: the reversal table \<open>sortReversed\<close> (lines
  5--9), the comparison callback of the \<open>sort\<close> action (lines 149--169), the
  \<open>sortOption\<close> getter (lines 241--246) and the \<open>changeSortKey\<close> action (lines
  140--148). The callback compares the key field, breaks ties by name, negates once
  for a reversed key and once more for a descending option. The lemmas identify the
  result: a stable sort by the pair (key field, name), reversed exactly when the
  reversal flag and the descending flag differ.

  The getter reads \<open>state.sortOptions[state.directory]\<close>, but the module's own
  state has no field \<open>directory\<close> (the directory is \<open>rootState.directory\<close>), so
  the property read is the one named by the string \<open>"undefined"\<close>; \<open>changeSortKey\<close>
  stores under \<open>rootState.directory\<close>. The model keeps both as written.
\<close>

section \<open>Definitions\<close>

definition sortReversed :: "sort_field \<Rightarrow> bool" where
  "sortReversed k = (case k of Name \<Rightarrow> False | Size \<Rightarrow> False | Mtime \<Rightarrow> True)"

text \<open>\<open>a[key] > b[key] ? 1 : a[key] < b[key] ? -1 : 0\<close> for the three keys.\<close>

definition key_cmp :: "sort_field \<Rightarrow> entry \<Rightarrow> entry \<Rightarrow> int" where
  "key_cmp k a b =
     (case k of Name \<Rightarrow> cmp3 (name a) (name b)
      | Size \<Rightarrow> cmp3 (fsize a) (fsize b)
      | Mtime \<Rightarrow> cmp3 (mtime a) (mtime b))"

definition sort_compare :: "sort_option \<Rightarrow> entry \<Rightarrow> entry \<Rightarrow> int" where
  "sort_compare opt a b =
     (let r0 = key_cmp (key opt) a b;
          r1 = (if r0 = 0 then cmp3 (name a) (name b) else r0);
          r2 = (if sortReversed (key opt) then -1 * r1 else r1)
      in if descending opt then -1 * r2 else r2)"

definition sort_items :: "sort_option \<Rightarrow> entry list \<Rightarrow> entry list" where
  "sort_items opt xs = js_sort (sort_compare opt) xs"

text \<open>A JS property key: \<open>undefined\<close> is the key \<open>"undefined"\<close>.\<close>

definition js_key :: "string option \<Rightarrow> string" where
  "js_key d = (case d of None \<Rightarrow> ''undefined'' | Some s \<Rightarrow> s)"

definition default_sort_option :: sort_option where
  "default_sort_option = \<lparr>key = Name, descending = False\<rparr>"

definition sortOption :: "estate \<Rightarrow> sort_option" where
  "sortOption st =
     (case sortOptions st (js_key None) of None \<Rightarrow> default_sort_option | Some opt \<Rightarrow> opt)"

definition sort_action :: "world \<Rightarrow> world" where
  "sort_action w = commit (setItems (sort_items (sortOption (es w)) (items (es w)))) w"

definition changeSortKey :: "sort_field \<Rightarrow> world \<Rightarrow> world" where
  "changeSortKey k w =
     (let opt = sortOption (es w);
          d = (if key opt = k then \<not> descending opt else False)
      in sort_action (commit (setSortOption \<lparr>key = k, descending = d\<rparr> (js_key (rootDirectory w))) w))"

section \<open>The comparison as an order on (key field, name)\<close>

definition rank :: "sort_field \<Rightarrow> entry \<Rightarrow> int \<times> string" where
  "rank k a = (case k of Name \<Rightarrow> (0, name a) | Size \<Rightarrow> (fsize a, name a) | Mtime \<Rightarrow> (mtime a, name a))"

lemma snd_rank [simp]: "snd (rank k a) = name a"
  by (cases k) (simp_all add: rank_def)

lemma key_cmp_rank:
  "(if key_cmp k a b = 0 then cmp3 (name a) (name b) else key_cmp k a b) = cmp3 (rank k a) (rank k b)"
  by (cases k) (auto simp: key_cmp_def rank_def cmp3_def less_prod_def)

lemma sort_compare_rank:
  "sort_compare opt a b =
     (if sortReversed (key opt) = descending opt then cmp3 (rank (key opt) a) (rank (key opt) b)
      else cmp3 (rank (key opt) b) (rank (key opt) a))"
  by (simp add: sort_compare_def key_cmp_rank Let_def)

lemma sort_compare_total: "sort_compare opt a b \<le> 0 \<or> sort_compare opt b a \<le> 0"
  by (auto simp: sort_compare_rank)

lemma sort_compare_trans:
  "sort_compare opt a b \<le> 0 \<Longrightarrow> sort_compare opt b c \<le> 0 \<Longrightarrow> sort_compare opt a c \<le> 0"
  by (auto simp: sort_compare_rank split: if_splits)

lemma sorted_wrt_sort_items:
  "sorted_wrt (\<lambda>a b. sort_compare opt a b \<le> 0) (sort_items opt xs)"
  unfolding sort_items_def
  by (rule sorted_wrt_js_sort) (simp_all add: sort_compare_total sort_compare_trans)

lemma sort_items_idem [simp]: "sort_items opt (sort_items opt xs) = sort_items opt xs"
  using sorted_wrt_sort_items [of opt xs] by (simp add: sort_items_def js_sort_sorted_id)

lemma set_sort_items [simp]: "set (sort_items opt xs) = set xs"
  unfolding sort_items_def by (rule mset_eq_setD) simp

lemma distinct_map_rank:
  "distinct (map name xs) \<Longrightarrow> distinct (map (rank k) xs)"
proof -
  assume "distinct (map name xs)"
  then have "distinct (map snd (map (rank k) xs))" by (simp add: comp_def)
  then show ?thesis by (auto simp: distinct_map intro: inj_on_imageI2)
qed

lemma filter_key_distinct:
  "distinct (map f xs) \<Longrightarrow> k \<in> set xs \<Longrightarrow> filter (\<lambda>x. f k = f x) xs = [k]"
proof (induction xs)
  case Nil
  then show ?case by simp
next
  case (Cons y ys)
  show ?case
  proof (cases "k = y")
    case True
    with Cons.prems have "\<forall>x \<in> set ys. f k \<noteq> f x" by auto
    with True show ?thesis by (simp add: filter_False)
  next
    case False
    with Cons.prems have "k \<in> set ys" by simp
    then have "f k \<in> f ` set ys" by simp
    moreover have "f y \<notin> f ` set ys" using Cons.prems(1) by simp
    ultimately have "f k \<noteq> f y" by auto
    with False Cons show ?thesis by auto
  qed
qed

lemma distinct_map_mset_eq:
  "mset ys = mset xs \<Longrightarrow> distinct (map f ys) = distinct (map f xs)"
  by (rule mset_eq_imp_distinct_iff) simp

text \<open>Sorting by the reversed order, with distinct ranks, is the reverse of the
  ascending sort.\<close>

lemma js_sort_flip_rank:
  assumes dist: "distinct (map f xs)"
  shows "js_sort (\<lambda>a b. cmp3 (f b) (f a)) xs = rev (sort_key f xs)"
proof -
  let ?ys = "js_sort (\<lambda>a b. cmp3 (f b) (f a)) xs"
  have ms: "mset (rev ?ys) = mset xs" by simp
  have dys: "distinct (map f (rev ?ys))"
    using distinct_map_mset_eq [OF ms] dist by blast
  have sw: "sorted_wrt (\<lambda>a b. cmp3 (f b) (f a) \<le> 0) ?ys"
  proof (rule sorted_wrt_js_sort)
    fix a b
    show "cmp3 (f b) (f a) \<le> 0 \<or> cmp3 (f a) (f b) \<le> 0"
      by (simp add: linear)
  next
    fix a b c
    assume "cmp3 (f b) (f a) \<le> 0" and "cmp3 (f c) (f b) \<le> 0"
    then show "cmp3 (f c) (f a) \<le> 0"
      by (metis cmp3_le_0 order_trans)
  qed
  then have srt: "sorted (map f (rev ?ys))"
    by (simp add: sorted_wrt_rev sorted_wrt_map rev_map [symmetric])
  have flt: "\<And>k. k \<in> set (rev ?ys) \<Longrightarrow>
      filter (\<lambda>x. f k = f x) (rev ?ys) = filter (\<lambda>x. f k = f x) xs"
  proof -
    fix k assume k: "k \<in> set (rev ?ys)"
    then have "k \<in> set xs" using ms by (metis set_mset_mset)
    with k dys dist show "filter (\<lambda>x. f k = f x) (rev ?ys) = filter (\<lambda>x. f k = f x) xs"
      by (simp only: filter_key_distinct)
  qed
  have "sort_key f xs = rev ?ys"
    by (rule properties_for_sort_key [OF ms flt srt])
  then show ?thesis by simp
qed

section \<open>Properties of the sort\<close>

text \<open>C9: on a listing with distinct names, the sort is \<open>sort_key\<close> by the pair
  (key field, name), reversed exactly when the key's reversal flag and the descending
  flag differ.\<close>

theorem sort_items_spec:
  assumes "distinct (map name xs)"
  shows "sort_items opt xs =
           (if sortReversed (key opt) = descending opt then sort_key (rank (key opt)) xs
            else rev (sort_key (rank (key opt)) xs))"
proof (cases "sortReversed (key opt) = descending opt")
  case True
  then have "sort_compare opt = (\<lambda>a b. cmp3 (rank (key opt) a) (rank (key opt) b))"
    by (simp add: sort_compare_rank fun_eq_iff)
  with True show ?thesis by (simp add: sort_items_def js_sort_key)
next
  case False
  then have "sort_compare opt = (\<lambda>a b. cmp3 (rank (key opt) b) (rank (key opt) a))"
    by (simp add: sort_compare_rank fun_eq_iff)
  with False assms show ?thesis
    by (simp add: sort_items_def js_sort_flip_rank distinct_map_rank)
qed

lemma sort_compare_default: "sort_compare default_sort_option a b = cmp3 (name a) (name b)"
  by (simp add: sort_compare_def default_sort_option_def key_cmp_def sortReversed_def)

text \<open>C10: with the default option (name, ascending) the sort is the library's stable
  \<open>sort_key name\<close>, duplicates included.\<close>

theorem sort_items_default:
  "sort_items default_sort_option xs = sort_key name xs"
proof -
  have "sort_compare default_sort_option = (\<lambda>a b. cmp3 (name a) (name b))"
    by (simp add: fun_eq_iff sort_compare_default)
  then show ?thesis by (simp add: sort_items_def js_sort_key)
qed

text \<open>C11: sorting by modification time with the stored default \<open>descending = false\<close>
  shows the newest first, because of the reversal table.\<close>

theorem sort_mtime_newest_first:
  "sorted_wrt (\<lambda>a b. mtime b \<le> mtime a) (sort_items \<lparr>key = Mtime, descending = False\<rparr> xs)"
proof -
  have "sorted_wrt (\<lambda>a b. sort_compare \<lparr>key = Mtime, descending = False\<rparr> a b \<le> 0)
          (sort_items \<lparr>key = Mtime, descending = False\<rparr> xs)"
    by (rule sorted_wrt_sort_items)
  then show ?thesis
    by (rule sorted_wrt_mono_rel [rotated])
       (auto simp: sort_compare_rank sortReversed_def rank_def less_eq_prod_def)
qed

text \<open>C12: when the key is reversed, the name tie-break is reversed with it: two
  entries with the same modification time come out in descending name order, not in the
  ascending order the specification states for ties.\<close>

theorem sort_mtime_ties_descending:
  assumes "mtime a = mtime b" and "name a < name b"
  shows "sort_items \<lparr>key = Mtime, descending = False\<rparr> [a, b] = [b, a]"
  using assms
  by (simp add: sort_items_def js_sort_def sort_compare_rank sortReversed_def rank_def
      cmp3_def less_prod_def)

text \<open>C13: \<open>changeSortKey\<close> stores the new option under the current directory, but
  the getter reads the property \<open>"undefined"\<close>; for any directory other than that
  string the option in force and the order of the items are the ones before the click.\<close>

theorem changeSortKey_no_effect:
  assumes "rootDirectory w = Some d" and "d \<noteq> ''undefined''"
  shows "sortOption (es (changeSortKey k w)) = sortOption (es w) \<and>
         items (es (changeSortKey k w)) = sort_items (sortOption (es w)) (items (es w))"
  using assms
  by (simp add: changeSortKey_def sort_action_def sortOption_def js_key_def Let_def
      commit_def mutation_simps)

text \<open>C14: clicking the same key twice does not toggle the stored direction back:
  from a store with nothing under \<open>"undefined"\<close>, two clicks on the name key store
  \<open>descending = true\<close> both times.\<close>

theorem changeSortKey_twice:
  assumes "rootDirectory w = Some d" and "sortOptions (es w) ''undefined'' = None"
    and "d \<noteq> ''undefined''"
  shows "sortOptions (es (changeSortKey Name (changeSortKey Name w))) d =
           Some \<lparr>key = Name, descending = True\<rparr>"
  using assms
  by (simp add: changeSortKey_def sort_action_def sortOption_def js_key_def Let_def
      default_sort_option_def commit_def mutation_simps)

end
