(* ===== verification/Filtering.thy ===== *)
theory Filtering
  imports Store
begin

text \<open>
  The FilterEngine of \<^verbatim>\<open>explorer.js\<close>: the getter \<open>filteredItems\<close> (lines
  247--251), which keeps the items whose lower-cased name contains the lower-cased
  query (every item when the query is empty, \<open>!state.query\<close>), and the action
  \<open>search\<close> (lines 129--132), which commits the pending input as the query. The
  lemmas show the getter is the case-insensitive substring filter of the
  specification (section 4.4), order preserved.
\<close>

definition filteredItems :: "estate \<Rightarrow> entry list" where
  "filteredItems st =
     filter (\<lambda>file. query st = [] \<or> -1 < js_index_of (js_lower (name file)) (js_lower (query st)))
       (items st)"

definition search :: "world \<Rightarrow> world" where
  "search w = commit (setQuery (queryInput (es w))) w"

text \<open>The specification's filter: a case-insensitive substring test.\<close>

definition matches_query :: "string \<Rightarrow> entry \<Rightarrow> bool" where
  "matches_query q file \<longleftrightarrow> sublist (js_lower q) (js_lower (name file))"

lemma js_lower_Nil [simp]: "js_lower [] = []"
  by (simp add: js_lower_def)

lemma filteredItems_cong:
  "items st' = items st \<Longrightarrow> query st' = query st \<Longrightarrow> filteredItems st' = filteredItems st"
  by (simp add: filteredItems_def)

lemma filteredItems_subseq: "subseq (filteredItems st) (items st)"
  by (simp add: filteredItems_def)

lemma set_filteredItems: "set (filteredItems st) \<subseteq> set (items st)"
  by (auto simp: filteredItems_def)

text \<open>C15: the getter is the specification's filter: an item is kept exactly when
  the lower-cased query is a contiguous substring of its lower-cased name, and the kept
  items keep their order; the empty query keeps everything.\<close>

theorem filteredItems_spec:
  "filteredItems st = filter (matches_query (query st)) (items st)"
proof -
  have "\<And>file. (query st = [] \<or> -1 < js_index_of (js_lower (name file)) (js_lower (query st)))
          = matches_query (query st) file"
    by (auto simp: matches_query_def js_index_of_sublist)
  then show ?thesis by (simp add: filteredItems_def)
qed

end
