(* ===== verification/Selection.thy ===== *)
theory Selection
  imports Filtering "HOL-Library.While_Combinator"
begin

text \<open>
  The SelectionCursor of \<^verbatim>\<open>explorer.js\<close>: the getters \<open>isSelected\<close> and
  \<open>selectedIndex\<close> (lines 252--261) and the actions \<open>select\<close>, \<open>selectIndex\<close>,
  \<open>selectFirst\<close>, \<open>selectLast\<close>, \<open>selectPrevious\<close> and \<open>selectNext\<close> (lines
  107--128). The selection is a path; its index is looked up in the filtered items
  with \<open>findIndex\<close> (\<open>-1\<close> when absent). An index outside the filtered items is
  ignored, so the relative moves stop at both ends instead of wrapping.
\<close>

definition isSelected :: "estate \<Rightarrow> string \<Rightarrow> bool" where
  "isSelected st filepath \<longleftrightarrow> selectedFilepath st = filepath"

definition selectedIndex :: "estate \<Rightarrow> int" where
  "selectedIndex st = js_find_index (\<lambda>file. isSelected st (path file)) (filteredItems st)"

definition select :: "string \<Rightarrow> world \<Rightarrow> world" where
  "select filepath w = commit (setSelectedFilepath filepath) w"

definition selectIndex :: "int \<Rightarrow> world \<Rightarrow> world" where
  "selectIndex index w =
     (let fi = filteredItems (es w)
      in if index < 0 \<or> index > int (length fi) - 1 then w
         else select (path (fi ! nat index)) w)"

definition selectFirst :: "world \<Rightarrow> world" where
  "selectFirst w = selectIndex 0 w"

definition selectLast :: "world \<Rightarrow> world" where
  "selectLast w = selectIndex (int (length (filteredItems (es w))) - 1) w"

definition selectPrevious :: "world \<Rightarrow> world" where
  "selectPrevious w = selectIndex (selectedIndex (es w) - 1) w"

definition selectNext :: "world \<Rightarrow> world" where
  "selectNext w = selectIndex (selectedIndex (es w) + 1) w"

lemma filteredItems_select [simp]: "filteredItems (es (select p w)) = filteredItems (es w)"
  by (simp add: select_def filteredItems_def mutation_simps)

lemma selectedFilepath_select [simp]: "selectedFilepath (es (select p w)) = p"
  by (simp add: select_def mutation_simps)

lemma selectIndex_in_range:
  "0 \<le> i \<Longrightarrow> i < int (length (filteredItems (es w))) \<Longrightarrow>
   selectIndex i w = select (path (filteredItems (es w) ! nat i)) w"
  by (simp add: selectIndex_def Let_def)

lemma selectedIndex_select_nth:
  assumes "distinct (map path (filteredItems (es w)))" and "k < length (filteredItems (es w))"
  shows "selectedIndex (es (select (path (filteredItems (es w) ! k)) w)) = int k"
proof -
  let ?fi = "filteredItems (es w)"
  have "js_find_index (\<lambda>file. path (?fi ! k) = path file) ?fi = int k"
    using assms by (rule js_find_index_distinct)
  then show ?thesis by (simp add: selectedIndex_def isSelected_def)
qed

lemma filteredItems_selectNext [simp]: "filteredItems (es (selectNext w)) = filteredItems (es w)"
  by (simp add: selectNext_def selectIndex_def Let_def)

lemma filteredItems_selectNext_funpow [simp]:
  "filteredItems (es ((selectNext ^^ k) w)) = filteredItems (es w)"
  by (induction k) simp_all

lemma selectedIndex_range:
  "-1 \<le> selectedIndex st" "selectedIndex st < int (length (filteredItems st))"
  by (simp_all add: selectedIndex_def js_find_index_ge js_find_index_less)

text \<open>One press of Down on distinct paths: the index moves by one until the last item,
  where the press does nothing.\<close>

lemma selectNext_index:
  assumes "distinct (map path (filteredItems (es w)))"
  shows "selectedIndex (es (selectNext w)) = min (selectedIndex (es w) + 1) (int (length (filteredItems (es w))) - 1)"
proof (cases "selectedIndex (es w) + 1 < int (length (filteredItems (es w)))")
  case True
  let ?k = "nat (selectedIndex (es w) + 1)"
  have k: "?k < length (filteredItems (es w))" and ki: "int ?k = selectedIndex (es w) + 1"
    using True selectedIndex_range(1) [of "es w"] by auto
  have "selectNext w = select (path (filteredItems (es w) ! ?k)) w"
    using True selectedIndex_range(1) [of "es w"] by (simp add: selectNext_def selectIndex_def Let_def)
  with selectedIndex_select_nth [OF assms k] ki True show ?thesis by simp
next
  case False
  then have "selectNext w = w" by (simp add: selectNext_def selectIndex_def Let_def)
  with False selectedIndex_range(2) [of "es w"] show ?thesis by simp
qed

lemma selectNext_funpow_index:
  assumes "distinct (map path (filteredItems (es w)))"
  shows "selectedIndex (es ((selectNext ^^ k) w)) =
           min (selectedIndex (es w) + int k) (int (length (filteredItems (es w))) - 1)"
proof (induction k)
  case 0
  then show ?case using selectedIndex_range(2) [of "es w"] by simp
next
  case (Suc k)
  have "distinct (map path (filteredItems (es ((selectNext ^^ k) w))))" using assms by simp
  from selectNext_index [OF this] Suc.IH show ?case by simp
qed

lemma selectNext_fixed:
  assumes "distinct (map path (filteredItems (es w)))"
  shows "selectNext w = w \<longleftrightarrow> selectedIndex (es w) = int (length (filteredItems (es w))) - 1"
proof
  assume "selectNext w = w"
  then have "selectedIndex (es w) = selectedIndex (es (selectNext w))" by simp
  with selectNext_index [OF assms] show "selectedIndex (es w) = int (length (filteredItems (es w))) - 1"
    by linarith
next
  assume "selectedIndex (es w) = int (length (filteredItems (es w))) - 1"
  then show "selectNext w = w" by (simp add: selectNext_def selectIndex_def Let_def)
qed

text \<open>C16: an index outside the filtered items leaves the world unchanged.\<close>

theorem selectIndex_out_of_range:
  "i < 0 \<or> int (length (filteredItems (es w))) \<le> i \<Longrightarrow> selectIndex i w = w"
  by (auto simp: selectIndex_def Let_def)

text \<open>C17: at the last filtered item \<open>selectNext\<close> does nothing, and at the first
  \<open>selectPrevious\<close> does nothing: the moves do not wrap around.\<close>

theorem select_moves_stop_at_ends:
  "(selectedIndex (es w) = int (length (filteredItems (es w))) - 1 \<longrightarrow> selectNext w = w) \<and>
   (selectedIndex (es w) = 0 \<longrightarrow> selectPrevious w = w)"
  by (auto simp: selectNext_def selectPrevious_def selectIndex_def Let_def)

text \<open>C18: selecting an index in range and reading the selected index back gives the
  same index, when the filtered paths are distinct (paths in one directory are).\<close>

theorem selectIndex_selectedIndex:
  assumes "0 \<le> i" and "i < int (length (filteredItems (es w)))"
    and "distinct (map path (filteredItems (es w)))"
  shows "selectedIndex (es (selectIndex i w)) = i"
proof -
  have sel: "selectIndex i w = select (path (filteredItems (es w) ! nat i)) w"
    using assms(1,2) by (rule selectIndex_in_range)
  have "nat i < length (filteredItems (es w))" using assms(1,2) by simp
  with selectedIndex_select_nth [OF assms(3)] sel assms(1) show ?thesis by simp
qed

text \<open>C25: with nothing selected (or the selection filtered out), \<open>selectNext\<close>
  selects the first filtered item: the index \<open>-1 + 1\<close> is in range.\<close>

theorem selectNext_from_none:
  assumes "selectedIndex (es w) = -1" and "filteredItems (es w) \<noteq> []"
  shows "selectedFilepath (es (selectNext w)) = path (hd (filteredItems (es w)))"
  using assms by (simp add: selectNext_def selectIndex_def Let_def hd_conv_nth)

text \<open>C27: the selected index is \<open>-1\<close> or an index of the filtered items, and at
  that index sits the selected path.\<close>

theorem selectedIndex_bounds:
  "-1 \<le> selectedIndex st \<and> selectedIndex st < int (length (filteredItems st)) \<and>
   (0 \<le> selectedIndex st \<longrightarrow>
      path (filteredItems st ! nat (selectedIndex st)) = selectedFilepath st)"
proof -
  let ?P = "\<lambda>file. isSelected st (path file)" and ?fi = "filteredItems st"
  have "0 \<le> js_find_index ?P ?fi \<longrightarrow> ?P (?fi ! nat (js_find_index ?P ?fi))"
    using js_find_index_found [of ?P ?fi] by blast
  then have "0 \<le> selectedIndex st \<longrightarrow>
      path (filteredItems st ! nat (selectedIndex st)) = selectedFilepath st"
    by (auto simp: selectedIndex_def isSelected_def)
  moreover have "-1 \<le> selectedIndex st" "selectedIndex st < int (length (filteredItems st))"
    by (simp_all add: selectedIndex_def js_find_index_ge js_find_index_less)
  ultimately show ?thesis by blast
qed

text \<open>C28: holding the Down key terminates. On filtered items with distinct paths
  (the paths of one directory are), pressing \<open>selectNext\<close> until it no longer changes
  anything stops, after at most as many presses as there are filtered items, with the
  last filtered item selected (the index \<open>-1\<close> on an empty list). With duplicate
  paths the index is looked up as the first occurrence, and the presses can cycle.\<close>

theorem selectNext_terminates:
  assumes "distinct (map path (filteredItems (es w)))"
  shows "\<exists>w'. while_option (\<lambda>v. selectNext v \<noteq> v) selectNext w = Some w' \<and>
           selectedIndex (es w') = int (length (filteredItems (es w))) - 1 \<and>
           filteredItems (es w') = filteredItems (es w)"
proof -
  let ?n = "length (filteredItems (es w))"
  have "selectedIndex (es ((selectNext ^^ ?n) w)) = int ?n - 1"
    using selectNext_funpow_index [OF assms, of ?n] selectedIndex_range(1) [of "es w"] by simp
  then have "\<not> (selectNext ((selectNext ^^ ?n) w) \<noteq> (selectNext ^^ ?n) w)"
    using selectNext_fixed [of "(selectNext ^^ ?n) w"] assms by simp
  then have ex: "\<exists>k. \<not> selectNext ((selectNext ^^ k) w) \<noteq> (selectNext ^^ k) w" by blast
  obtain w' where w': "while_option (\<lambda>v. selectNext v \<noteq> v) selectNext w = Some w'"
    by (simp only: while_option_def if_P [OF ex])
  from while_option_stop2 [OF w'] obtain k where "w' = (selectNext ^^ k) w" "selectNext w' = w'"
    by auto
  with selectNext_fixed [of w'] assms w' show ?thesis by auto
qed

end
