(* ===== verification/Navigation.thy ===== *)
theory Navigation
  imports History Sorting Selection
begin

text \<open>
  The NavigationController of \<^verbatim>\<open>explorer.js\<close>: the actions that move between
  directories (lines 26--106) and hand files to the viewer (lines 170--187). Each is
  one definition returning \<open>world res\<close>: \<open>Exc\<close> where the code throws, with the
  mutations committed before the throw kept, as in the Vuex store. \<open>load\<close> cannot
  throw (its \<open>try\<close> catches the watch and the listing), so it returns a world.

  \<open>restoreDirectory\<close> reads \<open>state.histories[historyIndex]\<close> before it commits the
  index and dereferences \<open>.directory\<close> after: on an index outside the stack it commits
  the index and then throws a \<open>TypeError\<close>. \<open>backDirectory\<close> and
  \<open>forwardDirectory\<close> check only \<open>canBackDirectory\<close>/\<open>canForwardDirectory\<close>, not
  the offset, so an offset past the end of the stack reaches that throw.
\<close>

section \<open>The file-system watch\<close>

text \<open>\<open>if (watcher) watcher.close()\<close>: closing does not clear the variable, and closing
  a closed watch does nothing.\<close>

definition watch_close :: "world \<Rightarrow> world" where
  "watch_close w =
     (case watcher w of None \<Rightarrow> w
      | Some h \<Rightarrow> w\<lparr>live := filter (\<lambda>(h', p). h' \<noteq> h) (live w)\<rparr>)"

text \<open>\<open>watcher = fs.watch(dir, ...)\<close> when the watch can be armed.\<close>

definition watch_arm :: "string \<Rightarrow> world \<Rightarrow> world" where
  "watch_arm p w =
     w\<lparr>watcher := Some (next_handle w), live := (next_handle w, p) # live w,
       next_handle := Suc (next_handle w)\<rparr>"

section \<open>Actions\<close>

definition load :: "world \<Rightarrow> world" where
  "load w =
     (let w1 = watch_close w;
          w2 = (case rootDirectory w1 of
                  None \<Rightarrow> commit (setItems []) w1
                | Some p \<Rightarrow>
                    if fs_watchable (fs w1) p then
                      (let w' = watch_arm p w1 in
                       case list_items (fs w') p of
                         None \<Rightarrow> commit (setItems []) w'
                       | Some xs \<Rightarrow> commit (setItems xs) w')
                    else commit (setItems []) w1)
      in emit FocusExplorerTable (sort_action w2))"

definition restoreDirectory :: "int \<Rightarrow> world \<Rightarrow> world res" where
  "restoreDirectory i w =
     (let history = js_nth (histories (es w)) i;
          w1 = commit (setHistoryIndex i) w
      in case history of
           None \<Rightarrow> Exc TypeError w1
         | Some h \<Rightarrow>
             Ok (load (commit (setQuery [])
                   (commit (setDirectoryInput (directory h)) (setDirectory (directory h) w1)))))"

definition changeDirectory :: "string option \<Rightarrow> bool \<Rightarrow> world \<Rightarrow> world res" where
  "changeDirectory dirpath force w =
     (if dirpath = rootDirectory w \<and> \<not> force then Ok w
      else
        (let i = historyIndex (es w) + 1;
             hs = js_slice (histories (es w)) 0 i @ [\<lparr>directory = dirpath, scrollTop = 0\<rparr>];
             w1 = commit (setHistoryIndex i)
                    (commit (setHistories hs) (commit (setSelectedFilepath []) w))
         in restoreDirectory i w1))"

definition backDirectory :: "int \<Rightarrow> world \<Rightarrow> world res" where
  "backDirectory offset w =
     (if \<not> canBackDirectory (es w) then Ok w
      else restoreDirectory (historyIndex (es w) - 1 - offset) w)"

definition forwardDirectory :: "int \<Rightarrow> world \<Rightarrow> world res" where
  "forwardDirectory offset w =
     (if \<not> canForwardDirectory (es w) then Ok w
      else restoreDirectory (historyIndex (es w) + 1 + offset) w)"

definition initDirectory :: "world \<Rightarrow> world res" where
  "initDirectory w = changeDirectory (rootDirectory w) True w"

text \<open>\<open>new File(undefined)\<close> cannot compute a parent path: a \<open>TypeError\<close>.\<close>

definition changeParentDirectory :: "world \<Rightarrow> world res" where
  "changeParentDirectory w =
     (case rootDirectory w of
        None \<Rightarrow> Exc TypeError w
      | Some d \<Rightarrow> changeDirectory (Some (parent_path d)) False w)"

definition changeHomeDirectory :: "world \<Rightarrow> world res" where
  "changeHomeDirectory w = changeDirectory (Some (fs_home (fs w))) False w"

definition changeSelectedDirectory :: "world \<Rightarrow> world res" where
  "changeSelectedDirectory w =
     (let sel = selectedFilepath (es w)
      in if sel \<noteq> [] \<and> fs_is_dir (fs w) sel then changeDirectory (Some sel) False w else Ok w)"

definition invalid_directory_message :: "string \<Rightarrow> string" where
  "invalid_directory_message d = ''Invalid directory '' @ [CHR 0x22] @ d @ [CHR 0x22]"

text \<open>\<open>shell.openItem\<close> takes a string; with \<open>undefined\<close> Electron's argument
  conversion throws.\<close>

definition openDirectory :: "world \<Rightarrow> world res" where
  "openDirectory w =
     (case rootDirectory w of
        None \<Rightarrow> Exc TypeError w
      | Some d \<Rightarrow>
          (let w1 = emit (OpenItem d) w
           in if fs_open (fs w) d then Ok w1
              else Ok (emit (ShowMessage (invalid_directory_message d)) w1)))"

definition showViewer :: "string \<Rightarrow> world \<Rightarrow> world res" where
  "showViewer filepath w =
     (if fs_is_dir (fs w) filepath then
        (case fs_list_rec (fs w) filepath of
           None \<Rightarrow> Exc ListError w
         | Some xs \<Rightarrow> Ok (emit (ViewerShow (map path xs) None) w))
      else
        (case fs_list (fs w) (parent_path filepath) of
           None \<Rightarrow> Exc ListError w
         | Some xs \<Rightarrow> Ok (emit (ViewerShow (map path xs) (Some filepath)) w)))"

definition action :: "string \<Rightarrow> world \<Rightarrow> world res" where
  "action filepath w =
     (if fs_is_dir (fs w) filepath then changeDirectory (Some filepath) False w
      else showViewer filepath w)"

section \<open>What load does\<close>

text \<open>The entries \<open>load\<close> stores before sorting: the listing, or nothing where
  arming the watch or listing throws.\<close>

definition loaded_items :: "world \<Rightarrow> entry list" where
  "loaded_items w =
     (case rootDirectory w of
        None \<Rightarrow> []
      | Some p \<Rightarrow>
          if fs_watchable (fs w) p then
            (case list_items (fs w) p of None \<Rightarrow> [] | Some xs \<Rightarrow> xs)
          else [])"

section \<open>The navigation invariant\<close>

text \<open>The history stack is well-formed, a directory is set, and once a directory has
  been visited the current record names the directory \<open>rootState.directory\<close> holds.\<close>

definition nav_inv :: "world \<Rightarrow> bool" where
  "nav_inv w \<longleftrightarrow> hist_wf (es w) \<and> rootDirectory w \<noteq> None \<and>
     (histories (es w) \<noteq> [] \<longrightarrow> rootDirectory w = directory (current (es w)))"

lemma watch_close_simps [simp]:
  "es (watch_close w) = es w" "rootDirectory (watch_close w) = rootDirectory w"
  "fs (watch_close w) = fs w" "watcher (watch_close w) = watcher w"
  "next_handle (watch_close w) = next_handle w" "out (watch_close w) = out w"
  by (simp_all add: watch_close_def split: option.splits)

lemma watch_arm_simps [simp]:
  "es (watch_arm p w) = es w" "rootDirectory (watch_arm p w) = rootDirectory w"
  "fs (watch_arm p w) = fs w" "out (watch_arm p w) = out w"
  by (simp_all add: watch_arm_def)

lemma commit_simps [simp]:
  "es (commit m w) = m (es w)" "rootDirectory (commit m w) = rootDirectory w"
  "fs (commit m w) = fs w" "watcher (commit m w) = watcher w" "live (commit m w) = live w"
  "next_handle (commit m w) = next_handle w" "out (commit m w) = out w"
  by (simp_all add: commit_def)

lemma setDirectory_simps [simp]:
  "es (setDirectory d w) = es w" "rootDirectory (setDirectory d w) = d"
  "fs (setDirectory d w) = fs w" "watcher (setDirectory d w) = watcher w"
  "live (setDirectory d w) = live w" "next_handle (setDirectory d w) = next_handle w"
  "out (setDirectory d w) = out w"
  by (simp_all add: setDirectory_def)

lemma sort_action_simps [simp]:
  "es (sort_action w) = (es w)\<lparr>items := sort_items (sortOption (es w)) (items (es w))\<rparr>"
  "rootDirectory (sort_action w) = rootDirectory w" "fs (sort_action w) = fs w"
  "watcher (sort_action w) = watcher w" "live (sort_action w) = live w"
  "next_handle (sort_action w) = next_handle w" "out (sort_action w) = out w"
  by (simp_all add: sort_action_def setItems_def)

lemma sortOption_items [simp]: "sortOption (st\<lparr>items := xs\<rparr>) = sortOption st"
  by (simp add: sortOption_def)

lemma load_es:
  "es (load w) = (es w)\<lparr>items := sort_items (sortOption (es w)) (loaded_items w)\<rparr>"
  by (simp add: load_def loaded_items_def Let_def setItems_def split: option.splits)

text \<open>The module state after \<open>load\<close> depends on the state before only through its
  fields other than \<open>items\<close>, the directory and the file system.\<close>

lemma load_es_cong:
  assumes "es x = (es y)\<lparr>items := items (es x)\<rparr>" and "rootDirectory x = rootDirectory y"
    and "fs x = fs y"
  shows "es (load x) = es (load y)"
proof -
  have "sortOption (es x) = sortOption (es y)" by (subst assms(1)) simp
  moreover have "loaded_items x = loaded_items y" unfolding loaded_items_def assms(2,3) by (rule refl)
  ultimately show ?thesis using assms(1) by (simp add: load_es) (metis estate.update_convs(1) estate.surjective)
qed

lemma load_simps [simp]:
  "rootDirectory (load w) = rootDirectory w" "fs (load w) = fs w"
  "out (load w) = out w @ [FocusExplorerTable]"
  by (simp_all add: load_def Let_def emit_def split: option.splits)

lemma load_es_fields [simp]:
  "histories (es (load w)) = histories (es w)" "historyIndex (es (load w)) = historyIndex (es w)"
  "query (es (load w)) = query (es w)" "queryInput (es (load w)) = queryInput (es w)"
  "selectedFilepath (es (load w)) = selectedFilepath (es w)"
  "sortOptions (es (load w)) = sortOptions (es w)"
  "directoryInput (es (load w)) = directoryInput (es w)"
  by (simp_all add: load_es)

lemma restoreDirectory_Some:
  "js_nth (histories (es w)) i = Some h \<Longrightarrow>
   restoreDirectory i w =
     Ok (load (commit (setQuery [])
          (commit (setDirectoryInput (directory h))
            (setDirectory (directory h) (commit (setHistoryIndex i) w)))))"
  by (simp add: restoreDirectory_def)

lemma restoreDirectory_None:
  "js_nth (histories (es w)) i = None \<Longrightarrow>
   restoreDirectory i w = Exc TypeError (commit (setHistoryIndex i) w)"
  by (simp add: restoreDirectory_def)

text \<open>In range, a restore moves the cursor, makes the record's directory current,
  clears the query and reloads; nothing else of the stack changes.\<close>

lemma restoreDirectory_in_range:
  assumes "0 \<le> i" and "i < int (length (histories (es w)))"
  shows "\<exists>w'. restoreDirectory i w = Ok w' \<and>
           histories (es w') = histories (es w) \<and> historyIndex (es w') = i \<and>
           rootDirectory w' = directory (histories (es w) ! nat i) \<and>
           query (es w') = [] \<and> queryInput (es w') = queryInput (es w) \<and>
           selectedFilepath (es w') = selectedFilepath (es w) \<and> fs w' = fs w"
  using assms by (simp add: restoreDirectory_Some js_nth_Some mutation_simps)

lemma nav_inv_init: "d \<noteq> None \<Longrightarrow> nav_inv (init_world d fs0)"
  by (simp add: nav_inv_def init_world_def hist_wf_def init_state_def)

text \<open>The push of \<open>changeDirectory\<close>, described once for the claims below.\<close>

lemma changeDirectory_pushes:
  assumes inv: "nav_inv w" and go: "\<not> (dirpath = rootDirectory w \<and> \<not> force)"
    and d: "dirpath \<noteq> None"
  shows "\<exists>w'. changeDirectory dirpath force w = Ok w' \<and>
     histories (es w') = take (nat (historyIndex (es w) + 1)) (histories (es w)) @
                           [\<lparr>directory = dirpath, scrollTop = 0\<rparr>] \<and>
     historyIndex (es w') = historyIndex (es w) + 1 \<and>
     rootDirectory w' = dirpath \<and> selectedFilepath (es w') = [] \<and> query (es w') = [] \<and>
     queryInput (es w') = queryInput (es w) \<and> fs w' = fs w \<and> nav_inv w'"
proof -
  let ?i = "historyIndex (es w) + 1" and ?hs = "histories (es w)"
  let ?r = "\<lparr>directory = dirpath, scrollTop = 0\<rparr>"
  let ?hs' = "take (nat ?i) ?hs @ [?r]"
  have wf: "hist_wf (es w)" using inv by (simp add: nav_inv_def)
  have i0: "0 \<le> ?i" using hist_wf_index_ge [OF wf] by simp
  have ilen: "nat ?i \<le> length ?hs" using hist_wf_index_less [OF wf] by simp
  have len': "length ?hs' = Suc (nat ?i)" using ilen by simp
  let ?w1 = "commit (setHistoryIndex ?i) (commit (setHistories ?hs') (commit (setSelectedFilepath []) w))"
  have cd: "changeDirectory dirpath force w = restoreDirectory ?i ?w1"
    using go i0 by (auto simp add: changeDirectory_def Let_def js_slice_prefix)
  have w1: "histories (es ?w1) = ?hs'" "historyIndex (es ?w1) = ?i"
    "selectedFilepath (es ?w1) = []" "queryInput (es ?w1) = queryInput (es w)" "fs ?w1 = fs w"
    by (simp_all add: mutation_simps)
  have "0 \<le> ?i" "?i < int (length (histories (es ?w1)))"
    using i0 len' w1(1) by simp_all
  from restoreDirectory_in_range [OF this] obtain w' where
    r: "restoreDirectory ?i ?w1 = Ok w'" "histories (es w') = ?hs'" "historyIndex (es w') = ?i"
       "rootDirectory w' = directory (?hs' ! nat ?i)" "query (es w') = []"
       "queryInput (es w') = queryInput (es w)" "selectedFilepath (es w') = []" "fs w' = fs w"
    using w1 by auto
  have nth: "?hs' ! nat ?i = ?r" using ilen by (simp add: nth_append)
  have "\<forall>h \<in> set ?hs'. directory h \<noteq> None"
    using wf d by (auto simp: hist_wf_def dest: in_set_takeD)
  then have "nav_inv w'"
    using r(2,3,4) nth len' d i0 by (simp add: nav_inv_def hist_wf_def current_def)
  with cd r nth show ?thesis by auto
qed

section \<open>Properties of the navigation actions\<close>

text \<open>C1: navigating to a new directory (or forcing) from a well-formed state succeeds,
  drops the forward branch, appends the new record with scroll offset 0, moves the cursor
  onto it, makes it the current directory, clears the selection and the query, leaves no
  forward history, and keeps the navigation invariant.\<close>

theorem changeDirectory_push:
  assumes "nav_inv w" and "dirpath \<noteq> rootDirectory w \<or> force" and "dirpath \<noteq> None"
  shows "\<exists>w'. changeDirectory dirpath force w = Ok w' \<and>
     histories (es w') = take (nat (historyIndex (es w) + 1)) (histories (es w)) @
                           [\<lparr>directory = dirpath, scrollTop = 0\<rparr>] \<and>
     historyIndex (es w') = historyIndex (es w) + 1 \<and>
     rootDirectory w' = dirpath \<and> forwardDirectories (es w') = [] \<and>
     selectedFilepath (es w') = [] \<and> query (es w') = [] \<and> nav_inv w'"
proof -
  from assms changeDirectory_pushes [of w dirpath force] obtain w' where
    w': "changeDirectory dirpath force w = Ok w'"
      "histories (es w') = take (nat (historyIndex (es w) + 1)) (histories (es w)) @
                             [\<lparr>directory = dirpath, scrollTop = 0\<rparr>]"
      "historyIndex (es w') = historyIndex (es w) + 1" "rootDirectory w' = dirpath"
      "selectedFilepath (es w') = []" "query (es w') = []" "nav_inv w'"
    by blast
  have "-1 \<le> historyIndex (es w)" "historyIndex (es w) < int (length (histories (es w)))"
    using assms(1) by (simp_all add: nav_inv_def hist_wf_index_ge hist_wf_index_less)
  then have "historyIndex (es w') = int (length (histories (es w'))) - 1"
    using w'(2,3) by simp
  then have "forwardDirectories (es w') = []" by (rule forwardDirectories_tail)
  with w' show ?thesis by blast
qed

text \<open>C2: navigating to the directory already current, without \<open>force\<close>, changes
  nothing at all (no history record, no reload).\<close>

theorem changeDirectory_same:
  "dirpath = rootDirectory w \<Longrightarrow> changeDirectory dirpath False w = Ok w"
  by (simp add: changeDirectory_def)

text \<open>C3: going back by \<open>offset\<close> and then forward by the same \<open>offset\<close>, when
  the target is within the stack, returns to the original cursor and directory and
  leaves the stack unchanged.\<close>

theorem back_forward_roundtrip:
  assumes inv: "nav_inv w" and off: "0 \<le> offset" "offset < historyIndex (es w)"
  shows "\<exists>w1 w2. backDirectory offset w = Ok w1 \<and> forwardDirectory offset w1 = Ok w2 \<and>
           historyIndex (es w2) = historyIndex (es w) \<and> rootDirectory w2 = rootDirectory w \<and>
           histories (es w2) = histories (es w)"
proof -
  let ?i = "historyIndex (es w)" and ?hs = "histories (es w)"
  have wf: "hist_wf (es w)" using inv by (simp add: nav_inv_def)
  have ne: "?hs \<noteq> []" using wf off by (auto simp: hist_wf_def)
  have ilt: "?i < int (length ?hs)" using hist_wf_index_less [OF wf] .
  have "0 \<le> ?i - 1 - offset" "?i - 1 - offset < int (length ?hs)" using off ilt by simp_all
  from restoreDirectory_in_range [OF this] obtain w1 where
    w1: "restoreDirectory (?i - 1 - offset) w = Ok w1" "histories (es w1) = ?hs"
        "historyIndex (es w1) = ?i - 1 - offset"
    by blast
  have bk: "backDirectory offset w = Ok w1"
    using w1(1) off by (simp add: backDirectory_def canBackDirectory_def)
  have "0 \<le> ?i" "?i < int (length (histories (es w1)))" using off ilt w1(2) by simp_all
  from restoreDirectory_in_range [OF this] obtain w2 where
    w2: "restoreDirectory ?i w1 = Ok w2" "histories (es w2) = ?hs" "historyIndex (es w2) = ?i"
        "rootDirectory w2 = directory (?hs ! nat ?i)"
    using w1(2) by auto
  have fwd: "forwardDirectory offset w1 = Ok w2"
    using w2(1) w1(2,3) off ilt by (simp add: forwardDirectory_def canForwardDirectory_def)
  have "rootDirectory w = directory (?hs ! nat ?i)"
    using inv ne by (simp add: nav_inv_def current_def)
  with bk fwd w2 show ?thesis by auto
qed

text \<open>C6: going back with an offset past the start of the stack throws a
  \<open>TypeError\<close> after committing the out-of-range cursor, so the store is left with a
  cursor that indexes no record (the stack is no longer well-formed).\<close>

theorem back_overshoot_throws:
  assumes "nav_inv w" and "0 < historyIndex (es w)" and "historyIndex (es w) - 1 - offset < 0"
  shows "\<exists>w'. backDirectory offset w = Exc TypeError w' \<and>
           historyIndex (es w') = historyIndex (es w) - 1 - offset \<and>
           histories (es w') = histories (es w) \<and> \<not> hist_wf (es w')"
proof -
  have ne: "histories (es w) \<noteq> []" using assms(1,2) by (auto simp: nav_inv_def hist_wf_def)
  have "js_nth (histories (es w)) (historyIndex (es w) - 1 - offset) = None"
    using assms(3) by (simp add: js_nth_None)
  then have "backDirectory offset w =
      Exc TypeError (commit (setHistoryIndex (historyIndex (es w) - 1 - offset)) w)"
    using assms(2) by (simp add: backDirectory_def canBackDirectory_def restoreDirectory_None)
  with ne assms(3) show ?thesis by (simp add: mutation_simps hist_wf_def)
qed

text \<open>C8: a listing that fails (the watch cannot be armed or \<open>File.listFiles\<close>
  throws) is caught: the items become empty and the rest of the store is unchanged.\<close>

theorem load_failure_empty:
  assumes "rootDirectory w = Some p"
    and "\<not> fs_watchable (fs w) p \<or> fs_list (fs w) p = None"
  shows "es (load w) = (es w)\<lparr>items := []\<rparr> \<and> rootDirectory (load w) = rootDirectory w"
  using assms
  by (auto simp: load_es loaded_items_def list_items_def sort_items_def js_sort_def)

text \<open>C24: a listing that succeeds stores exactly its directories and images, sorted
  by the option the \<open>sortOption\<close> getter returns, and asks the view for focus.\<close>

theorem load_success:
  assumes "rootDirectory w = Some p" and "fs_watchable (fs w) p" and "fs_list (fs w) p = Some xs"
  shows "items (es (load w)) =
           sort_items (sortOption (es w)) (filter (\<lambda>f. isDirectory f \<or> isImage f) xs) \<and>
         out (load w) = out w @ [FocusExplorerTable]"
  using assms by (simp add: load_es loaded_items_def list_items_def)

text \<open>C21: when the shell cannot open the current directory, \<open>openDirectory\<close>
  reports \<open>Invalid directory "<path>"\<close> after the attempt and changes nothing else.\<close>

theorem openDirectory_failure:
  assumes "rootDirectory w = Some d" and "\<not> fs_open (fs w) d"
  shows "\<exists>w'. openDirectory w = Ok w' \<and> es w' = es w \<and> rootDirectory w' = rootDirectory w \<and>
           out w' = out w @ [OpenItem d, ShowMessage (''Invalid directory '' @ [CHR 0x22] @ d @ [CHR 0x22])]"
  using assms by (simp add: openDirectory_def invalid_directory_message_def emit_def)

text \<open>C22: navigation clears the committed query but keeps the pending query input,
  so a later \<open>search\<close> commits the old input again in the new directory.\<close>

theorem changeDirectory_keeps_queryInput:
  assumes "nav_inv w" and "dirpath \<noteq> rootDirectory w \<or> force" and "dirpath \<noteq> None"
  shows "\<exists>w'. changeDirectory dirpath force w = Ok w' \<and> query (es w') = [] \<and>
           queryInput (es w') = queryInput (es w) \<and>
           query (es (search w')) = queryInput (es w)"
proof -
  from assms changeDirectory_pushes [of w dirpath force] obtain w' where
    "changeDirectory dirpath force w = Ok w'" "query (es w') = []"
    "queryInput (es w') = queryInput (es w)"
    by blast
  then show ?thesis by (simp add: search_def mutation_simps)
qed

text \<open>C23: showing a file in the viewer lists the file's whole directory, directories
  and non-images included, and passes the file as the current item.\<close>

theorem showViewer_file:
  assumes "\<not> fs_is_dir (fs w) filepath" and "fs_list (fs w) (parent_path filepath) = Some xs"
  shows "showViewer filepath w = Ok (emit (ViewerShow (map path xs) (Some filepath)) w)"
  using assms by (simp add: showViewer_def)

text \<open>C30: reloading twice on an unchanged file system gives the same module state as
  reloading once: a burst of watch events converges.\<close>

theorem load_idempotent: "es (load (load w)) = es (load w)"
proof -
  have "loaded_items (load w) = loaded_items w"
    by (simp add: loaded_items_def split: option.splits)
  moreover have "sortOption (es (load w)) = sortOption (es w)"
    by (simp add: load_es)
  ultimately show ?thesis by (simp add: load_es)
qed

text \<open>C32: a reload (as a watch event triggers) keeps the user's place: the history,
  the cursor, the directory, the selection, the query and its input, the sort
  preferences are unchanged; only the items are replaced.\<close>

theorem load_keeps_place:
  "histories (es (load w)) = histories (es w) \<and> historyIndex (es (load w)) = historyIndex (es w) \<and>
   rootDirectory (load w) = rootDirectory w \<and> selectedFilepath (es (load w)) = selectedFilepath (es w) \<and>
   query (es (load w)) = query (es w) \<and> queryInput (es (load w)) = queryInput (es w) \<and>
   sortOptions (es (load w)) = sortOptions (es w)"
  by (simp add: load_es)

text \<open>C31: a reload triggered by a watch event just before a restore of an index in the
  stack (a Back or Forward press in range) is invisible in the module state and the
  directory: the restore reloads anyway. Out of range the restore throws before its
  reload, and an earlier reload stays visible in the items.\<close>

theorem reload_absorbed:
  assumes "0 \<le> i" and "i < int (length (histories (es w)))"
  shows "es (res_state (restoreDirectory i (load w))) = es (res_state (restoreDirectory i w)) \<and>
         rootDirectory (res_state (restoreDirectory i (load w))) = rootDirectory (res_state (restoreDirectory i w))"
proof -
  from assms obtain h where h: "js_nth (histories (es w)) i = Some h"
    by (simp add: js_nth_Some)
  let ?prep = "\<lambda>v. commit (setQuery []) (commit (setDirectoryInput (directory h))
                     (setDirectory (directory h) (commit (setHistoryIndex i) v)))"
  have "es (load (?prep (load w))) = es (load (?prep w))"
    by (rule load_es_cong) (simp_all add: load_es mutation_simps)
  with h show ?thesis by (simp add: restoreDirectory_def Let_def)
qed

end
