(* ===== verification/Step.thy ===== *)
theory Step
  imports Navigation
begin

text \<open>
  The store as a state machine. The view dispatches the module's actions (and commits
  the two input mutations it binds, \<open>setQueryInput\<close> and \<open>setDirectoryInput\<close>); an
  armed watch calls \<open>load\<close> when the directory changes; the file system changes on its
  own. Each is a rule of the step relation \<open>step\<close>, which is parameterised by the
  user intents it admits: all of them for the program as it is, or only those whose
  offsets stay within the history stack (\<open>intent_ok\<close>). A thrown exception ends the
  action but keeps its committed mutations, so the step goes to the state at the throw.
  Actions are serialised (one event at a time, section 5 of the specification).
  \<open>run\<close> dispatches a list of intents one after another, as the view does.
\<close>

datatype intent =
    InitDirectory
  | ChangeDirectory string bool
  | ChangeParentDirectory
  | ChangeHomeDirectory
  | ChangeSelectedDirectory
  | BackDirectory int
  | ForwardDirectory int
  | OpenDirectory
  | Select string
  | SelectIndex int
  | SelectFirst
  | SelectLast
  | SelectPrevious
  | SelectNext
  | Search
  | SetQueryInput string
  | SetDirectoryInput string
  | SetScrollTop int
  | ChangeSortKey sort_field
  | Action string
  | ShowViewer string

primrec dispatch :: "intent \<Rightarrow> world \<Rightarrow> world res" where
  "dispatch InitDirectory w = initDirectory w"
| "dispatch (ChangeDirectory p force) w = changeDirectory (Some p) force w"
| "dispatch ChangeParentDirectory w = changeParentDirectory w"
| "dispatch ChangeHomeDirectory w = changeHomeDirectory w"
| "dispatch ChangeSelectedDirectory w = changeSelectedDirectory w"
| "dispatch (BackDirectory n) w = backDirectory n w"
| "dispatch (ForwardDirectory n) w = forwardDirectory n w"
| "dispatch OpenDirectory w = openDirectory w"
| "dispatch (Select p) w = Ok (select p w)"
| "dispatch (SelectIndex i) w = Ok (selectIndex i w)"
| "dispatch SelectFirst w = Ok (selectFirst w)"
| "dispatch SelectLast w = Ok (selectLast w)"
| "dispatch SelectPrevious w = Ok (selectPrevious w)"
| "dispatch SelectNext w = Ok (selectNext w)"
| "dispatch Search w = Ok (search w)"
| "dispatch (SetQueryInput q) w = Ok (commit (setQueryInput q) w)"
| "dispatch (SetDirectoryInput d) w = Ok (commit (setDirectoryInput (Some d)) w)"
| "dispatch (SetScrollTop v) w = Ok (setScrollTop v w)"
| "dispatch (ChangeSortKey k) w = Ok (changeSortKey k w)"
| "dispatch (Action p) w = action p w"
| "dispatch (ShowViewer p) w = showViewer p w"

inductive step :: "(world \<Rightarrow> intent \<Rightarrow> bool) \<Rightarrow> world \<Rightarrow> world \<Rightarrow> bool"
  for allowed :: "world \<Rightarrow> intent \<Rightarrow> bool" where
  user: "allowed w a \<Longrightarrow> step allowed w (res_state (dispatch a w))"
| watch_event: "(h, p) \<in> set (live w) \<Longrightarrow> step allowed w (load w)"
| fs_change: "step allowed w (w\<lparr>fs := f\<rparr>)"

text \<open>Every intent, as the view may issue them.\<close>

definition any_intent :: "world \<Rightarrow> intent \<Rightarrow> bool" where
  "any_intent w a = True"

text \<open>Back and forward with a target inside the stack, and scroll reports only once a
  directory has been visited.\<close>

definition intent_ok :: "world \<Rightarrow> intent \<Rightarrow> bool" where
  "intent_ok w a =
     (case a of
        BackDirectory n \<Rightarrow>
          canBackDirectory (es w) \<longrightarrow>
            0 \<le> historyIndex (es w) - 1 - n \<and> historyIndex (es w) - 1 - n < int (length (histories (es w)))
      | ForwardDirectory n \<Rightarrow>
          canForwardDirectory (es w) \<longrightarrow>
            0 \<le> historyIndex (es w) + 1 + n \<and> historyIndex (es w) + 1 + n < int (length (histories (es w)))
      | SetScrollTop v \<Rightarrow> histories (es w) \<noteq> []
      | _ \<Rightarrow> True)"

text \<open>At most one watch is open, and it is the one the variable \<open>watcher\<close> holds.\<close>

definition watch_inv :: "world \<Rightarrow> bool" where
  "watch_inv w \<longleftrightarrow> length (live w) \<le> 1 \<and> (\<forall>x \<in> set (live w). watcher w = Some (fst x))"

text \<open>The fields of the world that navigation and the watch depend on.\<close>

definition same_nav :: "world \<Rightarrow> world \<Rightarrow> bool" where
  "same_nav w w' \<longleftrightarrow>
     histories (es w') = histories (es w) \<and> historyIndex (es w') = historyIndex (es w) \<and>
     rootDirectory w' = rootDirectory w \<and> watcher w' = watcher w \<and> live w' = live w"

text \<open>A result that is not a \<open>TypeError\<close>.\<close>

definition no_type_error :: "world res \<Rightarrow> bool" where
  "no_type_error r \<longleftrightarrow> (\<forall>w'. r \<noteq> Exc TypeError w')"

text \<open>A run: the intents dispatched one after another; a throw ends the action, not
  the run.\<close>

fun run :: "intent list \<Rightarrow> world \<Rightarrow> world" where
  "run [] w = w"
| "run (a # as) w = run as (res_state (dispatch a w))"

section \<open>Frame lemmas\<close>

lemma run_reachable: "(step any_intent)\<^sup>*\<^sup>* w (run as w)"
proof (induction as arbitrary: w)
  case Nil
  then show ?case by simp
next
  case (Cons a as)
  have "step any_intent w (res_state (dispatch a w))"
    by (rule step.user) (simp add: any_intent_def)
  with Cons.IH [of "res_state (dispatch a w)"] show ?case by simp
qed


lemma same_nav_inv: "same_nav w w' \<Longrightarrow> nav_inv w \<Longrightarrow> nav_inv w'"
  by (simp add: same_nav_def nav_inv_def hist_wf_def current_def)

lemma same_nav_watch: "same_nav w w' \<Longrightarrow> watch_inv w \<Longrightarrow> watch_inv w'"
  by (simp add: same_nav_def watch_inv_def)

lemma same_nav_actions:
  "same_nav w (select p w)" "same_nav w (selectIndex i w)" "same_nav w (selectFirst w)"
  "same_nav w (selectLast w)" "same_nav w (selectPrevious w)" "same_nav w (selectNext w)"
  "same_nav w (search w)" "same_nav w (commit (setQueryInput q) w)"
  "same_nav w (commit (setDirectoryInput d) w)" "same_nav w (changeSortKey k w)"
  "same_nav w (emit e w)"
  by (simp_all add: same_nav_def select_def selectIndex_def selectFirst_def selectLast_def
      selectPrevious_def selectNext_def search_def changeSortKey_def Let_def mutation_simps)

lemma watch_inv_frame [simp]:
  "watch_inv (commit m w) = watch_inv w" "watch_inv (setDirectory d w) = watch_inv w"
  "watch_inv (emit e w) = watch_inv w" "watch_inv (w\<lparr>fs := f\<rparr>) = watch_inv w"
  by (simp_all add: watch_inv_def)

lemma watch_close_live:
  assumes "watch_inv w" shows "live (watch_close w) = []"
proof (cases "watcher w")
  case None
  with assms have "\<forall>x \<in> set (live w). False" by (simp add: watch_inv_def)
  then have "live w = []" by (cases "live w") auto
  with None show ?thesis by (simp add: watch_close_def)
next
  case (Some h)
  with assms show ?thesis by (auto simp: watch_close_def watch_inv_def filter_empty_conv)
qed

lemma load_watch_inv: "watch_inv w \<Longrightarrow> watch_inv (load w)"
  by (auto simp: load_def Let_def watch_arm_def watch_inv_def watch_close_live
      split: option.splits)

lemma load_nav_inv: "nav_inv w \<Longrightarrow> nav_inv (load w)"
  by (simp add: nav_inv_def hist_wf_def current_def)

section \<open>Each action keeps the invariants\<close>

lemma restoreDirectory_watch: "watch_inv w \<Longrightarrow> watch_inv (res_state (restoreDirectory i w))"
  by (simp add: restoreDirectory_def Let_def load_watch_inv split: option.splits)

lemma changeDirectory_watch: "watch_inv w \<Longrightarrow> watch_inv (res_state (changeDirectory d f w))"
  by (simp add: changeDirectory_def Let_def restoreDirectory_watch)

lemma showViewer_watch: "watch_inv w \<Longrightarrow> watch_inv (res_state (showViewer p w))"
  by (simp add: showViewer_def split: option.splits)

lemma dispatch_watch:
  assumes wi: "watch_inv w" shows "watch_inv (res_state (dispatch a w))"
proof (cases a)
  case (SetScrollTop v)
  then show ?thesis
    using wi by (simp add: setScrollTop_def Let_def)
qed (use wi in \<open>auto simp: initDirectory_def changeParentDirectory_def changeHomeDirectory_def
      changeSelectedDirectory_def backDirectory_def forwardDirectory_def openDirectory_def
      action_def Let_def changeDirectory_watch restoreDirectory_watch showViewer_watch
      same_nav_actions [THEN same_nav_watch] split: option.splits\<close>)

lemma restoreDirectory_nav:
  assumes "nav_inv w" and "0 \<le> i" and "i < int (length (histories (es w)))"
  shows "\<exists>w'. restoreDirectory i w = Ok w' \<and> nav_inv w'"
proof -
  from restoreDirectory_in_range [OF assms(2,3)] obtain w' where
    w': "restoreDirectory i w = Ok w'" "histories (es w') = histories (es w)"
        "historyIndex (es w') = i" "rootDirectory w' = directory (histories (es w) ! nat i)"
    by blast
  have ne: "histories (es w) \<noteq> []" using assms(2,3) by auto
  have "histories (es w) ! nat i \<in> set (histories (es w))" using assms(2,3) by simp
  then have "directory (histories (es w) ! nat i) \<noteq> None"
    using assms(1) by (auto simp: nav_inv_def hist_wf_def)
  then have "nav_inv w'"
    using assms w' ne by (simp add: nav_inv_def hist_wf_def current_def)
  with w' show ?thesis by blast
qed

lemma changeDirectory_nav:
  assumes "nav_inv w" and "d \<noteq> None"
  shows "\<exists>w'. changeDirectory d f w = Ok w' \<and> nav_inv w'"
proof (cases "d = rootDirectory w \<and> \<not> f")
  case True
  with assms show ?thesis by (auto simp: changeDirectory_def)
next
  case False
  with assms changeDirectory_pushes [of w d f] show ?thesis by blast
qed

lemma setScrollTop_nav:
  assumes "nav_inv w" and "histories (es w) \<noteq> []"
  shows "nav_inv (setScrollTop v w)"
proof -
  have wf: "hist_wf (es w)" using assms(1) by (simp add: nav_inv_def)
  from setScrollTop_in_range [OF wf assms(2), of v] have
    h: "histories (es (setScrollTop v w)) =
          (histories (es w))[nat (historyIndex (es w)) := (current (es w))\<lparr>scrollTop := v\<rparr>]"
       "historyIndex (es (setScrollTop v w)) = historyIndex (es w)"
       "hist_wf (es (setScrollTop v w))"
    by blast+
  have r: "rootDirectory (setScrollTop v w) = rootDirectory w"
    by (simp add: setScrollTop_def Let_def)
  have "nat (historyIndex (es w)) < length (histories (es w))"
    using hist_wf_index [OF wf assms(2)] by auto
  then have "directory (current (es (setScrollTop v w))) = directory (current (es w))"
    using h(1,2) by (simp add: current_def)
  with assms h(2,3) r show ?thesis unfolding nav_inv_def by metis
qed

text \<open>One dispatched intent within range keeps the navigation invariant and throws no
  \<open>TypeError\<close>.\<close>

lemma same_nav_ok:
  "same_nav w w' \<Longrightarrow> nav_inv w \<Longrightarrow> nav_inv (res_state (Ok w')) \<and> no_type_error (Ok w')"
  by (simp add: same_nav_inv no_type_error_def)

lemma dispatch_nav:
  assumes inv: "nav_inv w" and ok: "intent_ok w a"
  shows "nav_inv (res_state (dispatch a w)) \<and> no_type_error (dispatch a w)"
proof -
  obtain d where d: "rootDirectory w = Some d" using inv by (auto simp: nav_inv_def)
  have cd: "nav_inv (res_state (changeDirectory p f w)) \<and> no_type_error (changeDirectory p f w)"
    if "p \<noteq> None" for p f
  proof -
    from changeDirectory_nav [OF inv that] obtain w' where
      "changeDirectory p f w = Ok w'" "nav_inv w'" by blast
    then show ?thesis by (simp add: no_type_error_def)
  qed
  have rs: "nav_inv (res_state (restoreDirectory i w)) \<and> no_type_error (restoreDirectory i w)"
    if "0 \<le> i" and "i < int (length (histories (es w)))" for i
  proof -
    from restoreDirectory_nav [OF inv that] obtain w' where
      "restoreDirectory i w = Ok w'" "nav_inv w'" by blast
    then show ?thesis by (simp add: no_type_error_def)
  qed
  have sv: "\<And>p. nav_inv (res_state (showViewer p w)) \<and> no_type_error (showViewer p w)"
    using inv same_nav_actions(11) [THEN same_nav_inv]
    by (simp add: showViewer_def no_type_error_def split: option.splits)
  have okw: "nav_inv (res_state (Ok w)) \<and> no_type_error (Ok w)"
    using inv by (simp add: no_type_error_def)
  note sn = same_nav_actions [THEN same_nav_ok, OF inv]
  show ?thesis
  proof (cases a)
    case InitDirectory
    with d cd show ?thesis by (simp add: initDirectory_def)
  next
    case (ChangeDirectory p f)
    with cd show ?thesis by simp
  next
    case ChangeParentDirectory
    with d cd show ?thesis by (simp add: changeParentDirectory_def)
  next
    case ChangeHomeDirectory
    with cd show ?thesis by (simp add: changeHomeDirectory_def)
  next
    case ChangeSelectedDirectory
    with cd okw show ?thesis by (simp add: changeSelectedDirectory_def Let_def)
  next
    case (BackDirectory n)
    with ok rs okw show ?thesis by (simp add: intent_ok_def backDirectory_def)
  next
    case (ForwardDirectory n)
    with ok rs okw show ?thesis by (simp add: intent_ok_def forwardDirectory_def)
  next
    case OpenDirectory
    have "nav_inv (emit e (emit e' w))" for e e'
      using inv by (meson same_nav_actions(11) same_nav_inv)
    moreover have "nav_inv (emit e w)" for e
      using inv by (meson same_nav_actions(11) same_nav_inv)
    ultimately show ?thesis using OpenDirectory d
      by (simp add: openDirectory_def Let_def no_type_error_def)
  next
    case (Select p)
    with sn show ?thesis by simp
  next
    case (SelectIndex i)
    with sn show ?thesis by simp
  next
    case SelectFirst
    with sn show ?thesis by simp
  next
    case SelectLast
    with sn show ?thesis by simp
  next
    case SelectPrevious
    with sn show ?thesis by simp
  next
    case SelectNext
    with sn show ?thesis by simp
  next
    case Search
    with sn show ?thesis by simp
  next
    case (SetQueryInput q)
    with sn show ?thesis by simp
  next
    case (SetDirectoryInput q)
    with sn show ?thesis by simp
  next
    case (SetScrollTop v)
    with ok inv show ?thesis by (simp add: intent_ok_def setScrollTop_nav no_type_error_def)
  next
    case (ChangeSortKey k)
    with sn show ?thesis by simp
  next
    case (Action p)
    with cd sv show ?thesis by (simp add: action_def)
  next
    case (ShowViewer p)
    with sv show ?thesis by simp
  qed
qed

section \<open>Invariants of the reachable states\<close>

lemma step_nav_inv:
  assumes "step intent_ok w w'" and "nav_inv w"
  shows "nav_inv w'"
  using assms
proof cases
  case (user a)
  with assms(2) dispatch_nav show ?thesis by blast
next
  case (watch_event h p)
  with assms(2) show ?thesis by (simp add: load_nav_inv)
next
  case (fs_change f)
  with assms(2) show ?thesis by (simp add: nav_inv_def hist_wf_def current_def)
qed

lemma step_watch_inv:
  assumes "step allowed w w'" and "watch_inv w"
  shows "watch_inv w'"
  using assms
proof cases
  case (user a)
  with assms(2) show ?thesis by (simp add: dispatch_watch)
next
  case (watch_event h p)
  with assms(2) show ?thesis by (simp add: load_watch_inv)
next
  case (fs_change f)
  with assms(2) show ?thesis by simp
qed

lemma reachable_nav:
  assumes "(step intent_ok)\<^sup>*\<^sup>* (init_world (Some d) fs0) w"
  shows "nav_inv w"
  using assms
proof (induction rule: rtranclp_induct)
  case base
  show ?case by (simp add: nav_inv_init)
next
  case (step y z)
  then show ?case by (blast intro: step_nav_inv)
qed

text \<open>C4: every state reached from a fresh store with a directory set, by any
  sequence of user intents within range, watch callbacks and file-system changes,
  satisfies the navigation invariant: the history cursor is \<open>-1\<close> on the empty stack
  and indexes a record otherwise, every record names a directory, and the current
  record names \<open>rootState.directory\<close>.\<close>

theorem reachable_nav_inv:
  assumes "(step intent_ok)\<^sup>*\<^sup>* (init_world (Some d) fs0) w"
  shows "nav_inv w"
  using assms by (rule reachable_nav)

text \<open>C5: whatever the user does, at most one file-system watch is open at any time,
  and it is the one held in the variable \<open>watcher\<close>: \<open>load\<close> closes the previous
  watch before it arms a new one, and a failed arm leaves none open.\<close>

theorem reachable_single_watch:
  assumes "(step allowed)\<^sup>*\<^sup>* (init_world d fs0) w"
  shows "length (live w) \<le> 1 \<and> (\<forall>(h, p) \<in> set (live w). watcher w = Some h)"
proof -
  have "watch_inv w"
    using assms
  proof (induction rule: rtranclp_induct)
    case base
    show ?case by (simp add: watch_inv_def init_world_def)
  next
    case (step y z)
    then show ?case by (blast intro: step_watch_inv)
  qed
  then show ?thesis by (auto simp: watch_inv_def)
qed

text \<open>C7: in every state reached with intents in range, no intent in range throws a
  \<open>TypeError\<close>; the only exception left is the uncaught listing error of
  \<open>showViewer\<close>.\<close>

theorem reachable_no_type_error:
  assumes "(step intent_ok)\<^sup>*\<^sup>* (init_world (Some d) fs0) w" and "intent_ok w a"
  shows "\<forall>w'. dispatch a w \<noteq> Exc TypeError w'"
proof -
  have "nav_inv w"
    using assms(1) by (rule reachable_nav)
  with assms(2) dispatch_nav show ?thesis by (simp add: no_type_error_def)
qed

end
