(* ===== verification/Invariants.thy ===== *)
theory Invariants
  imports Step
begin

text \<open>
  Invariants of the whole store that span its components: what the listing holds and
  in which order (Listing, SortEngine and every action that reloads or sorts), and what
  the user can always still reach (HistoryStack and NavigationController). They are
  stated over the step relation of theory \<open>Step\<close>.

  \<open>listing_inv\<close>: every listed item is a directory or an image (the filter of
  \<open>load\<close>, line 91) and the items are in the order of the sort preference the getter
  \<open>sortOption\<close> returns (\<open>load\<close> and \<open>changeSortKey\<close> end by sorting, and no other
  action writes \<open>items\<close> or \<open>sortOptions\<close>). It holds for any intents, in or out of
  range. The preference the getter reads (key \<open>"undefined"\<close>) is written only by
  \<open>changeSortKey\<close> at a directory of that name, so along runs that avoid it the
  order is the default one. \<open>back_run\<close> is the run of Back presses from a state
  satisfying the navigation invariant to the bottom of the stack.
\<close>

definition listing_inv :: "estate \<Rightarrow> bool" where
  "listing_inv st \<longleftrightarrow>
     list_all (\<lambda>f. isDirectory f \<or> isImage f) (items st) \<and>
     sort_items (sortOption st) (items st) = items st"

section \<open>The listing invariant\<close>

lemma listing_inv_mutations [simp]:
  "listing_inv (setDirectoryInput d st) = listing_inv st"
  "listing_inv (setQuery q st) = listing_inv st"
  "listing_inv (setQueryInput q st) = listing_inv st"
  "listing_inv (setSelectedFilepath p st) = listing_inv st"
  "listing_inv (setHistory h i st) = listing_inv st"
  "listing_inv (setHistories hs st) = listing_inv st"
  "listing_inv (setHistoryIndex i st) = listing_inv st"
  by (simp_all add: listing_inv_def sortOption_def mutation_simps)

lemma listing_inv_init: "listing_inv init_state"
  by (simp add: listing_inv_def init_state_def sort_items_def js_sort_def)

lemma loaded_items_kind:
  assumes f: "f \<in> set (loaded_items w)" shows "isDirectory f \<or> isImage f"
proof (cases "rootDirectory w")
  case None
  with f show ?thesis by (simp add: loaded_items_def)
next
  case (Some p)
  show ?thesis
  proof (cases "fs_watchable (fs w) p")
    case True
    show ?thesis
    proof (cases "list_items (fs w) p")
      case None
      with f Some True show ?thesis by (simp add: loaded_items_def)
    next
      case (Some xs)
      with f \<open>rootDirectory w = Some p\<close> True have "f \<in> set xs" by (simp add: loaded_items_def)
      with Some show ?thesis by (rule list_items_kinds)
    qed
  next
    case False
    with f Some show ?thesis by (simp add: loaded_items_def)
  qed
qed

lemma loaded_items_kinds: "list_all (\<lambda>f. isDirectory f \<or> isImage f) (loaded_items w)"
  by (simp add: list_all_iff loaded_items_kind)

lemma listing_inv_load: "listing_inv (es (load w))"
  using loaded_items_kinds [of w] by (simp add: load_es listing_inv_def list_all_iff)

lemma listing_inv_sort:
  "list_all (\<lambda>f. isDirectory f \<or> isImage f) (items (es w)) \<Longrightarrow> listing_inv (es (sort_action w))"
  by (simp add: listing_inv_def list_all_iff)

lemma listing_inv_changeSortKey: "listing_inv (es w) \<Longrightarrow> listing_inv (es (changeSortKey k w))"
  unfolding changeSortKey_def Let_def
  by (rule listing_inv_sort) (simp add: listing_inv_def mutation_simps)

lemma restoreDirectory_listing:
  "listing_inv (es w) \<Longrightarrow> listing_inv (es (res_state (restoreDirectory i w)))"
  by (simp add: restoreDirectory_def Let_def listing_inv_load split: option.splits)

lemma changeDirectory_listing:
  "listing_inv (es w) \<Longrightarrow> listing_inv (es (res_state (changeDirectory d f w)))"
  by (simp add: changeDirectory_def Let_def restoreDirectory_listing)

lemma showViewer_listing: "listing_inv (es w) \<Longrightarrow> listing_inv (es (res_state (showViewer p w)))"
  by (simp add: showViewer_def split: option.splits)

lemma selectIndex_listing: "listing_inv (es w) \<Longrightarrow> listing_inv (es (selectIndex i w))"
  by (simp add: selectIndex_def select_def Let_def)

lemma dispatch_listing:
  assumes li: "listing_inv (es w)" shows "listing_inv (es (res_state (dispatch a w)))"
proof (cases a)
  case (SetScrollTop v)
  with li show ?thesis by (simp add: setScrollTop_def Let_def)
next
  case (ChangeSortKey k)
  with li show ?thesis by (simp add: listing_inv_changeSortKey)
qed (use li in \<open>simp_all add: initDirectory_def changeParentDirectory_def changeHomeDirectory_def
      changeSelectedDirectory_def backDirectory_def forwardDirectory_def openDirectory_def
      action_def select_def selectFirst_def selectLast_def selectPrevious_def selectNext_def
      search_def Let_def changeDirectory_listing restoreDirectory_listing showViewer_listing
      selectIndex_listing split: option.splits\<close>)

lemma step_listing_inv:
  assumes "step allowed w w'" and "listing_inv (es w)"
  shows "listing_inv (es w')"
  using assms
proof cases
  case (user a)
  with assms(2) show ?thesis by (simp add: dispatch_listing)
next
  case (watch_event h p)
  then show ?thesis by (simp add: listing_inv_load)
next
  case (fs_change f)
  with assms(2) show ?thesis by simp
qed

lemma reachable_listing_inv:
  assumes "(step allowed)\<^sup>*\<^sup>* (init_world d fs0) w"
  shows "listing_inv (es w)"
  using assms
proof (induction rule: rtranclp_induct)
  case base
  show ?case by (simp add: init_world_def listing_inv_init)
next
  case (step y z)
  then show ?case by (blast intro: step_listing_inv)
qed

section \<open>The sort preference the getter reads\<close>

text \<open>Only \<open>changeSortKey\<close> writes \<open>sortOptions\<close>, and it writes the key of the
  current directory; the getter reads the key \<open>"undefined"\<close>.\<close>

lemma restoreDirectory_prefs: "sortOptions (es (res_state (restoreDirectory i w))) = sortOptions (es w)"
  by (simp add: restoreDirectory_def Let_def load_es mutation_simps split: option.splits)

lemma changeDirectory_prefs: "sortOptions (es (res_state (changeDirectory d f w))) = sortOptions (es w)"
  by (simp add: changeDirectory_def Let_def restoreDirectory_prefs mutation_simps)

lemma showViewer_prefs: "sortOptions (es (res_state (showViewer p w))) = sortOptions (es w)"
  by (simp add: showViewer_def split: option.splits)

lemma selectIndex_prefs: "sortOptions (es (selectIndex i w)) = sortOptions (es w)"
  by (simp add: selectIndex_def select_def Let_def mutation_simps)

lemma dispatch_prefs:
  assumes "\<forall>k. a \<noteq> ChangeSortKey k"
  shows "sortOptions (es (res_state (dispatch a w))) = sortOptions (es w)"
  using assms
proof (cases a)
  case (SetScrollTop v)
  then show ?thesis by (simp add: setScrollTop_def Let_def mutation_simps)
qed (simp_all add: initDirectory_def changeParentDirectory_def changeHomeDirectory_def
      changeSelectedDirectory_def backDirectory_def forwardDirectory_def openDirectory_def
      action_def select_def selectFirst_def selectLast_def selectPrevious_def selectNext_def
      search_def Let_def mutation_simps changeDirectory_prefs restoreDirectory_prefs showViewer_prefs
      selectIndex_prefs split: option.splits)

lemma changeSortKey_prefs:
  "rootDirectory (changeSortKey k w) = rootDirectory w"
  "js_key (rootDirectory w) \<noteq> js_key None \<Longrightarrow>
   sortOptions (es (changeSortKey k w)) (js_key None) = sortOptions (es w) (js_key None)"
  by (simp_all add: changeSortKey_def Let_def mutation_simps)

lemma restricted_step_prefs:
  assumes st: "step intent_ok w w'" and nu: "rootDirectory w' \<noteq> Some ''undefined''"
    and inv: "nav_inv w" and pn: "sortOptions (es w) (js_key None) = None"
  shows "sortOptions (es w') (js_key None) = None"
  using st
proof cases
  case (user a)
  show ?thesis
  proof (cases "\<exists>k. a = ChangeSortKey k")
    case True
    then obtain k where a: "a = ChangeSortKey k" by blast
    obtain p where p: "rootDirectory w = Some p" using inv by (auto simp: nav_inv_def)
    with nu user a have "js_key (rootDirectory w) \<noteq> js_key None"
      by (simp add: changeSortKey_prefs(1) js_key_def)
    with user a pn show ?thesis by (simp add: changeSortKey_prefs(2))
  next
    case False
    with user pn show ?thesis by (simp add: dispatch_prefs)
  qed
next
  case (watch_event h p)
  with pn show ?thesis by (simp add: load_es)
next
  case (fs_change f)
  with pn show ?thesis by simp
qed

section \<open>Going back to the start\<close>

lemma back_step:
  assumes "nav_inv w" and "0 < historyIndex (es w)"
  shows "\<exists>w'. dispatch (BackDirectory 0) w = Ok w' \<and> step intent_ok w w' \<and> nav_inv w' \<and>
           histories (es w') = histories (es w) \<and> historyIndex (es w') = historyIndex (es w) - 1"
proof -
  let ?i = "historyIndex (es w) - 1"
  have r: "0 \<le> ?i" "?i < int (length (histories (es w)))"
    using assms hist_wf_index_less [of "es w"] by (auto simp: nav_inv_def)
  from restoreDirectory_in_range [OF r] obtain w' where
    w': "restoreDirectory ?i w = Ok w'" "histories (es w') = histories (es w)"
        "historyIndex (es w') = ?i"
    by blast
  from restoreDirectory_nav [OF assms(1) r] w'(1) have inv: "nav_inv w'" by auto
  have can: "canBackDirectory (es w)" using assms(2) by (simp add: canBackDirectory_def)
  with w' have d: "dispatch (BackDirectory 0) w = Ok w'" by (simp add: backDirectory_def)
  have "intent_ok w (BackDirectory 0)" using r by (simp add: intent_ok_def)
  then have "step intent_ok w (res_state (dispatch (BackDirectory 0) w))" by (rule step.user)
  with d have "step intent_ok w w'" by simp
  with d inv w' show ?thesis by blast
qed

lemma back_run:
  "nav_inv w \<Longrightarrow> histories (es w) \<noteq> [] \<Longrightarrow> nat (historyIndex (es w)) = n \<Longrightarrow>
   (step intent_ok)\<^sup>*\<^sup>* w (run (replicate n (BackDirectory 0)) w) \<and>
   historyIndex (es (run (replicate n (BackDirectory 0)) w)) = 0 \<and>
   histories (es (run (replicate n (BackDirectory 0)) w)) = histories (es w) \<and>
   rootDirectory (run (replicate n (BackDirectory 0)) w) = directory (hd (histories (es w)))"
proof (induction n arbitrary: w)
  case 0
  then have "historyIndex (es w) = 0"
    using hist_wf_index [of "es w"] by (auto simp: nav_inv_def)
  with 0 show ?case by (auto simp: nav_inv_def current_def hd_conv_nth)
next
  case (Suc n)
  then have "0 < historyIndex (es w)" by simp
  from back_step [OF Suc.prems(1) this] obtain w' where
    w': "dispatch (BackDirectory 0) w = Ok w'" "step intent_ok w w'" "nav_inv w'"
        "histories (es w') = histories (es w)" "historyIndex (es w') = historyIndex (es w) - 1"
    by blast
  have r: "run (replicate (Suc n) (BackDirectory 0)) w = run (replicate n (BackDirectory 0)) w'"
    using w'(1) by simp
  have "nat (historyIndex (es w')) = n" using Suc.prems(3) w'(5) by simp
  with Suc.IH [OF w'(3)] Suc.prems(2) w'(4) have
    "(step intent_ok)\<^sup>*\<^sup>* w' (run (replicate n (BackDirectory 0)) w')"
    "historyIndex (es (run (replicate n (BackDirectory 0)) w')) = 0"
    "histories (es (run (replicate n (BackDirectory 0)) w')) = histories (es w)"
    "rootDirectory (run (replicate n (BackDirectory 0)) w') = directory (hd (histories (es w)))"
    by auto
  moreover from w'(2) this(1) have "(step intent_ok)\<^sup>*\<^sup>* w (run (replicate n (BackDirectory 0)) w')"
    by (rule converse_rtranclp_into_rtranclp)
  ultimately show ?case by (simp only: r)
qed

section \<open>Properties of the reachable states\<close>

text \<open>C33: whatever the user and the file system do, every item the store lists is a
  directory or an image: \<open>load\<close> filters the listing, a failed listing stores nothing,
  and sorting permutes the items.\<close>

theorem reachable_items_kinds:
  assumes "(step allowed)\<^sup>*\<^sup>* (init_world d fs0) w"
  shows "\<forall>f \<in> set (items (es w)). isDirectory f \<or> isImage f"
  using reachable_listing_inv [OF assms] by (simp add: listing_inv_def list_all_iff)

text \<open>C34: in every reachable state the listing is in the order of the sort
  preference the \<open>sortOption\<close> getter returns: every action that writes the items
  or the preferences ends by sorting.\<close>

theorem reachable_items_sorted:
  assumes "(step allowed)\<^sup>*\<^sup>* (init_world d fs0) w"
  shows "sorted_wrt (\<lambda>a b. sort_compare (sortOption (es w)) a b \<le> 0) (items (es w))"
proof -
  have "sort_items (sortOption (es w)) (items (es w)) = items (es w)"
    using reachable_listing_inv [OF assms] by (simp add: listing_inv_def)
  then show ?thesis using sorted_wrt_sort_items [of "sortOption (es w)" "items (es w)"] by simp
qed

text \<open>C35: from every state reached with intents in range, once a directory has been
  visited the user can return to the first directory of the stack: the run of as many
  presses of Back (offset 0) as the cursor's value is a run of admitted steps, it
  reaches the bottom of the stack without changing the stack, and it shows that
  directory.\<close>

theorem reachable_back_to_start:
  assumes "(step intent_ok)\<^sup>*\<^sup>* (init_world (Some d) fs0) w" and "histories (es w) \<noteq> []"
  shows "(step intent_ok)\<^sup>*\<^sup>* w (run (replicate (nat (historyIndex (es w))) (BackDirectory 0)) w) \<and>
         historyIndex (es (run (replicate (nat (historyIndex (es w))) (BackDirectory 0)) w)) = 0 \<and>
         histories (es (run (replicate (nat (historyIndex (es w))) (BackDirectory 0)) w)) = histories (es w) \<and>
         rootDirectory (run (replicate (nat (historyIndex (es w))) (BackDirectory 0)) w) =
           directory (hd (histories (es w)))"
  using back_run [OF reachable_nav [OF assms(1)] assms(2) refl] .


text \<open>C29: the per-directory sort preferences never take effect. Along every run with
  intents in range that never shows a directory literally named \<open>undefined\<close>, the
  getter \<open>sortOption\<close> returns the default option, and the listing is sorted by
  name, whatever sort keys the user clicks.\<close>

theorem reachable_sorted_by_name:
  assumes "(\<lambda>w w'. step intent_ok w w' \<and> rootDirectory w' \<noteq> Some ''undefined'')\<^sup>*\<^sup>*
             (init_world (Some d) fs0) w"
  shows "sortOption (es w) = default_sort_option \<and> sorted (map name (items (es w)))"
proof -
  have "nav_inv w \<and> sortOptions (es w) (js_key None) = None \<and> listing_inv (es w)"
    using assms
  proof (induction rule: rtranclp_induct)
    case base
    have "listing_inv (es (init_world (Some d) fs0))" by (simp add: init_world_def listing_inv_init)
    moreover have "sortOptions (es (init_world (Some d) fs0)) (js_key None) = None"
      by (simp add: init_world_def init_state_def)
    ultimately show ?case by (simp add: nav_inv_init)
  next
    case (step y z)
    then show ?case by (blast intro: step_nav_inv restricted_step_prefs step_listing_inv)
  qed
  then have opt: "sortOption (es w) = default_sort_option" and "listing_inv (es w)"
    by (simp_all add: sortOption_def)
  then have li: "sort_items default_sort_option (items (es w)) = items (es w)"
    by (simp add: listing_inv_def)
  have "sorted_wrt (\<lambda>a b. sort_compare default_sort_option a b \<le> 0) (items (es w))"
    using sorted_wrt_sort_items [of default_sort_option "items (es w)"] li by simp
  then have "sorted_wrt (\<lambda>a b. name a \<le> name b) (items (es w))"
    by (simp add: sort_compare_default)
  with opt show ?thesis by (simp add: sorted_wrt_map)
qed

end
