(* ===== verification/Spec2Isabelle.thy ===== *)
theory Spec2Isabelle
  imports Invariants
begin

text \<open>
  \<^bold>\<open>A verification library for the directory explorer of picty.\<close>

  The program is one Vuex store module, \<^verbatim>\<open>src/src/js/renderer/store/explorer.js\<close>:
  the navigation-and-listing core of the image viewer's directory browser. Its
  \<open>state\<close> holds the listed items, the query and its pending input, the selected
  path, a history stack of visited directories with a cursor, and sort options per
  directory; its \<open>mutations\<close> replace one field each; its \<open>getters\<close> derive the
  filtered items, the selected index, the back and forward lists and the sort option
  in force; its \<open>actions\<close> navigate, reload on file-system events, sort, filter and
  select. It calls collaborators whose code is not among the sources: the \<open>File\<close>
  utility (listing, classification, parent path), Node's \<open>fs.watch\<close>, Electron's
  shell and home directory, and the root store (\<open>rootState.directory\<close>, the
  notifier, the viewer, the view's focus).

  \<^bold>\<open>Theories.\<close>
  \<^item> \<open>Prelude\<close>: the JavaScript runtime the module relies on (\<open>slice\<close> with
    negative indices, array reads that give \<open>undefined\<close>, \<open>findIndex\<close>,
    \<open>indexOf\<close>, \<open>toLowerCase\<close> on Latin-1, the three-way comparison, a stable
    \<open>sort\<close>), with their characterisations (\<open>indexOf\<close> is \<open>sublist\<close>, the
    comparator sort is \<open>sort_key\<close>).
  \<^item> \<open>Listing\<close>: the entry record and the collaborators as a record \<open>fsys\<close> of
    observations (a listing or its failure, whether a watch can be armed, whether a
    path is a directory, whether the shell opens it, the home directory), modelled from
    section 6 of the specification.
  \<^item> \<open>Store\<close>: the module's \<open>state\<close> (record \<open>estate\<close>, lines 15--24), the history
    record, the sort option, the nine mutations (lines 189--223), and the world the
    actions run in (record \<open>world\<close>: module state, \<open>rootState.directory\<close>, the
    module-level \<open>watcher\<close>, the open OS watches, the file system, and the effects sent
    out in order), with the result type \<open>'a res\<close> whose \<open>Exc\<close> keeps the state at a
    throw.
  \<^item> \<open>History\<close> (HistoryStack): the back/forward getters, \<open>scrollTop\<close>,
    \<open>setScrollTop\<close> and the well-formedness \<open>hist_wf\<close>.
  \<^item> \<open>Sorting\<close> (SortEngine): \<open>sortReversed\<close>, the sort callback, the
    \<open>sortOption\<close> getter, the \<open>sort\<close> and \<open>changeSortKey\<close> actions.
  \<^item> \<open>Filtering\<close> (FilterEngine) and \<open>Selection\<close> (SelectionCursor): the
    \<open>filteredItems\<close>, \<open>isSelected\<close> and \<open>selectedIndex\<close> getters, \<open>search\<close>,
    \<open>select\<close> and the index moves.
  \<^item> \<open>Navigation\<close> (NavigationController and the DirectoryWatcher integration):
    \<open>load\<close>, \<open>restoreDirectory\<close>, \<open>changeDirectory\<close>, back, forward, parent, home,
    selected, \<open>initDirectory\<close>, \<open>openDirectory\<close>, \<open>action\<close>, \<open>showViewer\<close>, and the
    invariant \<open>nav_inv\<close>.
  \<^item> \<open>Step\<close>: the store as a state machine: a datatype of the view's intents, the
    dispatcher, and the inductive step relation \<open>step\<close> over user intents, watch
    callbacks (only live watches fire) and external file-system changes, parameterised
    by the intents admitted; the reachable-state invariants of navigation and watches.
  \<^item> \<open>Invariants\<close>: the invariants that span Listing, SortEngine and the
    navigation actions (\<open>listing_inv\<close>: the items are directories or images, in the
    order of the preference in force), and the counted run of Back presses.
  \<^item> this theory: a concrete file system and stores on it, the specification's
    filter example run on the code, and the witnesses. The runs of intents
    (\<open>run\<close>) are defined in \<open>Step\<close>.

  \<^bold>\<open>Correspondence.\<close> Every action is one definition with the code's name, taking
  the world and returning the new world (\<open>load\<close>, the selection and sort actions) or
  a \<open>world res\<close> (actions that can throw). A \<open>commit\<close> applies a mutation, an
  \<open>emit\<close> records a call to a collaborator, a nested \<open>dispatch\<close> is a call of the
  action's definition, in the code's order. JS values that can be \<open>undefined\<close> are
  options (a history record's \<open>directory\<close>, \<open>directoryInput\<close>,
  \<open>rootState.directory\<close>); a JS object used as a dictionary is a map keyed by the
  property name, \<open>undefined\<close> being the key \<open>"undefined"\<close>. Numbers are \<open>int\<close>
  (indices and offsets never approach \<open>2^53\<close>).

  \<^bold>\<open>What is proved.\<close>
  \<^item> History: the push of \<open>changeDirectory\<close> (truncate, append, move, no forward
    list), the no-op on the current directory, back then forward as a round trip,
    \<open>setScrollTop\<close> in range; the error path of an offset past the stack (the cursor
    is committed before the throw) and \<open>setScrollTop\<close> on the empty stack; the
    back list, the current record and the forward list reassemble the stack.
  \<^item> Sorting: the sort is \<open>sort_key\<close> by (key field, name), reversed when the key's
    reversal flag and the descending flag differ (a refinement against the library's
    stable sort); the default is \<open>sort_key name\<close>; modification time sorts newest
    first; ties are broken by descending name under a reversed key. The getter reads
    the key \<open>"undefined"\<close>, so \<open>changeSortKey\<close> has no effect on the order and two
    clicks do not toggle back.
  \<^item> Filtering and selection: the filter is the case-insensitive substring filter;
    out-of-range indices are ignored; the moves stop at the ends; select then read back
    is the identity on indices; \<open>selectNext\<close> from no selection picks the first item;
    holding Down terminates at the last filtered item.
    \<open>selectedIndex\<close> is \<open>-1\<close> or an index of the filtered items holding the
    selected path.
  \<^item> Navigation: a reload keeps the user's place and
    changes only the items, reloading is idempotent, a failed listing empties the
    items, and a watch-triggered reload just before an in-range restore is absorbed by
    the restore's own reload (the two orders give the same module state).
  \<^item> The machine: from a fresh store, with back/forward offsets in range, every
    reachable state satisfies \<open>nav_inv\<close> and no intent throws a \<open>TypeError\<close>;
    whatever the user does, at most one watch is open and it is the one \<open>watcher\<close>
    holds (an offset past the stack commits a dangling cursor before its throw, the
    reason the range restriction is needed for \<open>nav_inv\<close>).
    Whatever happens, every listed item is a directory or an image and the items are in
    the order of the preference the getter returns; from every state reached in range,
    the run of as many presses of Back as the cursor's value is a run of admitted steps
    that leads back to the first directory.
    Along every run in range that never shows a directory literally named
    \<open>undefined\<close>, the getter returns the default option and the listing is sorted
    by name: the per-directory sort preferences never take effect.

  \<^bold>\<open>Bounds and fuel.\<close> Every function is structurally recursive or a
  composition of such; no loop needs fuel. The watch callback is not a recursive call
  of \<open>load\<close> but a separate step of the machine, so reloads on file-system events are
  steps, not nesting. The code has no loop of its own beyond the array methods
  (\<open>slice\<close>, \<open>filter\<close>, \<open>findIndex\<close>, \<open>indexOf\<close>, \<open>sort\<close>), which
  are structural recursions here, so every action is a total function. The loops that
  may not end are the ones the user drives: the stream of watch events, which the
  machine lets go on forever (liveness is stated as what the user can still reach), and
  a held key. For the latter, holding Down is \<open>while_option\<close> of
  \<open>selectNext\<close> until nothing changes: it returns after at most as many presses as
  there are filtered items when their paths are distinct, which the proof counts with
  \<open>selectNext ^^ n\<close>.

  \<^bold>\<open>Not modelled.\<close> The view (focus is an effect), the viewer and notifier
  (effects), the internals of \<open>File\<close> (observations of \<open>fsys\<close>), timing and
  debouncing of watch events (each event is one step; steps do not overlap, as in the
  single-threaded store), Unicode beyond code unit 255 in \<open>toLowerCase\<close> and string
  order. \<open>parent_path\<close> follows Node's POSIX \<open>dirname\<close>; the parent of
  \<open>undefined\<close>, and \<open>shell.openItem(undefined)\<close>, are modelled as throwing.

  \<^bold>\<open>Further work.\<close> The components are modelled; what remains are properties:
  \<open>changeHomeDirectory\<close> and \<open>action\<close> on each kind of entry; the relation
  between \<open>directoryInput\<close> and the current directory; and reloads interleaved with
  the other actions (a reload before a push, or between two restores).
\<close>

section \<open>A concrete file system and runs\<close>

definition demo_entry :: "string \<Rightarrow> string \<Rightarrow> bool \<Rightarrow> bool \<Rightarrow> int \<Rightarrow> entry" where
  "demo_entry p n d i t = \<lparr>path = p, name = n, isDirectory = d, isImage = i, fsize = 0, mtime = t\<rparr>"

definition demo_a_listing :: "entry list" where
  "demo_a_listing =
     [demo_entry ''/a/c'' ''c'' True False 1, demo_entry ''/a/x.png'' ''x.png'' False True 2,
      demo_entry ''/a/b'' ''b'' True False 3, demo_entry ''/a/n.txt'' ''n.txt'' False False 4]"

definition demo_fs :: fsys where
  "demo_fs =
     \<lparr>fs_list = (\<lambda>p. if p = ''/a'' then Some demo_a_listing
                   else if p \<in> {''/a/b'', ''/a/c'', ''/a/d''} then Some [] else None),
      fs_list_rec = (\<lambda>p. None),
      fs_watchable = (\<lambda>p. p \<in> {''/a'', ''/a/b'', ''/a/c'', ''/a/d''}),
      fs_is_dir = (\<lambda>p. p \<in> {''/a'', ''/a/b'', ''/a/c'', ''/a/d''}),
      fs_open = (\<lambda>p. p \<noteq> ''/a/d''), fs_home = ''/home''\<rparr>"

definition demo_start :: world where
  "demo_start = init_world (Some ''/a'') demo_fs"

text \<open>A store three directories deep, at the tail of its stack, with a pending query
  input; a listing with one selected image; a listing with nothing selected.\<close>

definition demo_nav :: world where
  "demo_nav =
     demo_start\<lparr>es := init_state\<lparr>histories :=
        [\<lparr>directory = Some ''/a'', scrollTop = 0\<rparr>, \<lparr>directory = Some ''/a/b'', scrollTop = 0\<rparr>,
         \<lparr>directory = Some ''/a/c'', scrollTop = 7\<rparr>], historyIndex := 2, queryInput := ''img''\<rparr>,
       rootDirectory := Some ''/a/c''\<rparr>"

definition demo_sel :: world where
  "demo_sel =
     demo_start\<lparr>es := init_state\<lparr>items := [demo_entry ''/a/x.png'' ''x.png'' False True 2],
                                 selectedFilepath := ''/a/x.png''\<rparr>\<rparr>"

definition demo_list :: world where
  "demo_list =
     demo_start\<lparr>es := init_state\<lparr>items := [demo_entry ''/a/b'' ''b'' True False 3,
                                          demo_entry ''/a/x.png'' ''x.png'' False True 2]\<rparr>\<rparr>"

lemmas demo_eval = demo_nav_def demo_sel_def demo_list_def demo_start_def init_world_def
  init_state_def demo_entry_def

lemmas nav_eval = demo_start_def init_world_def init_state_def initDirectory_def
  changeDirectory_def restoreDirectory_def backDirectory_def forwardDirectory_def
  canBackDirectory_def canForwardDirectory_def js_slice_def js_bound_def js_nth_def
  mutation_simps Let_def

section \<open>The specification's filter example\<close>

text \<open>The specification's filter example, run on the code: the query \<open>IMG\<close> on
  \<open>image1.png\<close>, \<open>photo.png\<close>, \<open>imgur.jpg\<close> keeps \<open>imgur.jpg\<close> only (the
  case of the query does not matter). The specification expects \<open>image1.png\<close> as
  well, which does not contain \<open>img\<close> as a substring.\<close>

lemma filter_img_example:
  "map name (filteredItems (init_state\<lparr>items :=
      [demo_entry ''/i/image1.png'' ''image1.png'' False True 1,
       demo_entry ''/i/photo.png'' ''photo.png'' False True 2,
       demo_entry ''/i/imgur.jpg'' ''imgur.jpg'' False True 3], query := ''IMG''\<rparr>)) =
   [''imgur.jpg'']"
  by code_simp

section \<open>Witnesses\<close>

text \<open>Each theorem with hypotheses, applied at a concrete store where its hypotheses
  hold.\<close>

lemma list_all_from_ball:
  "\<forall>(h, p) \<in> set xs. P h \<Longrightarrow> list_all (\<lambda>x. P (fst x)) xs"
  by (auto simp: list_all_iff)

lemma demo_nav_inv: "nav_inv demo_nav"
  by (simp add: demo_eval nav_inv_def hist_wf_def current_def)

theorem changeDirectory_push_witness:
  "nav_inv demo_nav \<and> Some ''/a/d'' \<noteq> rootDirectory demo_nav \<and> Some ''/a/d'' \<noteq> None \<and>
   (\<exists>w'. changeDirectory (Some ''/a/d'') False demo_nav = Ok w' \<and>
     histories (es w') = take (nat (historyIndex (es demo_nav) + 1)) (histories (es demo_nav)) @
                           [\<lparr>directory = Some ''/a/d'', scrollTop = 0\<rparr>] \<and>
     historyIndex (es w') = historyIndex (es demo_nav) + 1 \<and>
     rootDirectory w' = Some ''/a/d'' \<and> forwardDirectories (es w') = [] \<and>
     selectedFilepath (es w') = [] \<and> query (es w') = [] \<and> nav_inv w')"
proof -
  have d0: "Some ''/a/d'' \<noteq> rootDirectory demo_nav" by (simp add: demo_eval)
  then have d: "Some ''/a/d'' \<noteq> rootDirectory demo_nav \<or> False" by simp
  have n: "Some ''/a/d'' \<noteq> None" by simp
  from changeDirectory_push [OF demo_nav_inv d n] demo_nav_inv d0 n show ?thesis by blast
qed

theorem changeDirectory_same_witness:
  "Some ''/a'' = rootDirectory demo_start \<and> changeDirectory (Some ''/a'') False demo_start = Ok demo_start"
proof -
  have h: "Some ''/a'' = rootDirectory demo_start" by (simp add: demo_eval)
  from changeDirectory_same [OF h] h show ?thesis by blast
qed

theorem back_forward_roundtrip_witness:
  "nav_inv demo_nav \<and> 0 \<le> (1::int) \<and> 1 < historyIndex (es demo_nav) \<and>
   (\<exists>w1 w2. backDirectory 1 demo_nav = Ok w1 \<and> forwardDirectory 1 w1 = Ok w2 \<and>
      historyIndex (es w2) = historyIndex (es demo_nav) \<and> rootDirectory w2 = rootDirectory demo_nav \<and>
      histories (es w2) = histories (es demo_nav))"
proof -
  have o: "0 \<le> (1::int)" "1 < historyIndex (es demo_nav)" by (simp_all add: demo_eval)
  from back_forward_roundtrip [OF demo_nav_inv o] demo_nav_inv o show ?thesis by blast
qed

theorem back_overshoot_throws_witness:
  "nav_inv demo_nav \<and> 0 < historyIndex (es demo_nav) \<and> historyIndex (es demo_nav) - 1 - 5 < 0 \<and>
   (\<exists>w'. backDirectory 5 demo_nav = Exc TypeError w' \<and>
      historyIndex (es w') = historyIndex (es demo_nav) - 1 - 5 \<and>
      histories (es w') = histories (es demo_nav) \<and> \<not> hist_wf (es w'))"
proof -
  have o: "0 < historyIndex (es demo_nav)" "historyIndex (es demo_nav) - 1 - 5 < 0"
    by (simp_all add: demo_eval)
  from back_overshoot_throws [OF demo_nav_inv o] demo_nav_inv o show ?thesis by blast
qed

lemma init_step_ok:
  "(step intent_ok)\<^sup>*\<^sup>* (init_world (Some ''/a'') demo_fs)
     (res_state (dispatch InitDirectory (init_world (Some ''/a'') demo_fs)))"
  by (rule r_into_rtranclp, rule step.user) (simp add: intent_ok_def)

theorem reachable_nav_inv_witness:
  "(step intent_ok)\<^sup>*\<^sup>* (init_world (Some ''/a'') demo_fs)
     (res_state (dispatch InitDirectory (init_world (Some ''/a'') demo_fs))) \<and>
   nav_inv (res_state (dispatch InitDirectory (init_world (Some ''/a'') demo_fs)))"
  using reachable_nav_inv [OF init_step_ok] init_step_ok by blast

theorem reachable_single_watch_witness:
  "(step any_intent)\<^sup>*\<^sup>* (init_world (Some ''/a'') demo_fs)
     (run [InitDirectory, ChangeDirectory ''/a/b'' False] (init_world (Some ''/a'') demo_fs)) \<and>
   length (live (run [InitDirectory, ChangeDirectory ''/a/b'' False] (init_world (Some ''/a'') demo_fs))) \<le> 1 \<and>
   list_all (\<lambda>x. watcher (run [InitDirectory, ChangeDirectory ''/a/b'' False] (init_world (Some ''/a'') demo_fs))
                  = Some (fst x))
     (live (run [InitDirectory, ChangeDirectory ''/a/b'' False] (init_world (Some ''/a'') demo_fs)))"
proof -
  let ?w = "run [InitDirectory, ChangeDirectory ''/a/b'' False] (init_world (Some ''/a'') demo_fs)"
  have r: "(step any_intent)\<^sup>*\<^sup>* (init_world (Some ''/a'') demo_fs) ?w" by (rule run_reachable)
  from reachable_single_watch [OF r] have
    l: "length (live ?w) \<le> 1" and b: "\<forall>(h, p) \<in> set (live ?w). watcher ?w = Some h"
    by blast+
  from b have "list_all (\<lambda>x. watcher ?w = Some (fst x)) (live ?w)"
    by (rule list_all_from_ball)
  with r l show ?thesis by blast
qed

theorem reachable_no_type_error_witness:
  "(step intent_ok)\<^sup>*\<^sup>* (init_world (Some ''/a'') demo_fs)
     (res_state (dispatch InitDirectory (init_world (Some ''/a'') demo_fs))) \<and>
   intent_ok (res_state (dispatch InitDirectory (init_world (Some ''/a'') demo_fs))) (BackDirectory 0) \<and>
   (\<forall>w'. dispatch (BackDirectory 0) (res_state (dispatch InitDirectory (init_world (Some ''/a'') demo_fs)))
          \<noteq> Exc TypeError w')"
proof -
  have ok: "intent_ok (res_state (dispatch InitDirectory (init_world (Some ''/a'') demo_fs))) (BackDirectory 0)"
    by (simp add: intent_ok_def nav_eval)
  from reachable_no_type_error [OF init_step_ok ok] init_step_ok ok show ?thesis by blast
qed

theorem load_failure_empty_witness:
  "rootDirectory (demo_start\<lparr>rootDirectory := Some ''/zz''\<rparr>) = Some ''/zz'' \<and>
   fs_list (fs (demo_start\<lparr>rootDirectory := Some ''/zz''\<rparr>)) ''/zz'' = None \<and>
   es (load (demo_start\<lparr>rootDirectory := Some ''/zz''\<rparr>)) = (es demo_start)\<lparr>items := []\<rparr> \<and>
   rootDirectory (load (demo_start\<lparr>rootDirectory := Some ''/zz''\<rparr>)) = Some ''/zz''"
proof -
  have h: "rootDirectory (demo_start\<lparr>rootDirectory := Some ''/zz''\<rparr>) = Some ''/zz''"
    "fs_list (fs (demo_start\<lparr>rootDirectory := Some ''/zz''\<rparr>)) ''/zz'' = None"
    by (simp_all add: demo_start_def init_world_def demo_fs_def)
  then have d: "\<not> fs_watchable (fs (demo_start\<lparr>rootDirectory := Some ''/zz''\<rparr>)) ''/zz'' \<or>
     fs_list (fs (demo_start\<lparr>rootDirectory := Some ''/zz''\<rparr>)) ''/zz'' = None" by simp
  from load_failure_empty [OF h(1) d] h show ?thesis by simp
qed

theorem sort_items_spec_witness:
  "distinct (map name [demo_entry ''/a/b'' ''b'' False True 5, demo_entry ''/a/a'' ''a'' False True 9]) \<and>
   sort_items \<lparr>key = Mtime, descending = False\<rparr>
     [demo_entry ''/a/b'' ''b'' False True 5, demo_entry ''/a/a'' ''a'' False True 9] =
   (if sortReversed (key \<lparr>key = Mtime, descending = False\<rparr>) = descending \<lparr>key = Mtime, descending = False\<rparr>
    then sort_key (rank (key \<lparr>key = Mtime, descending = False\<rparr>))
           [demo_entry ''/a/b'' ''b'' False True 5, demo_entry ''/a/a'' ''a'' False True 9]
    else rev (sort_key (rank (key \<lparr>key = Mtime, descending = False\<rparr>))
           [demo_entry ''/a/b'' ''b'' False True 5, demo_entry ''/a/a'' ''a'' False True 9]))"
proof -
  have h: "distinct (map name [demo_entry ''/a/b'' ''b'' False True 5, demo_entry ''/a/a'' ''a'' False True 9])"
    by (simp add: demo_entry_def)
  from sort_items_spec [OF h] h show ?thesis by blast
qed

theorem sort_mtime_ties_descending_witness:
  "mtime (demo_entry ''/a/a'' ''a'' False True 5) = mtime (demo_entry ''/a/b'' ''b'' False True 5) \<and>
   name (demo_entry ''/a/a'' ''a'' False True 5) < name (demo_entry ''/a/b'' ''b'' False True 5) \<and>
   sort_items \<lparr>key = Mtime, descending = False\<rparr>
     [demo_entry ''/a/a'' ''a'' False True 5, demo_entry ''/a/b'' ''b'' False True 5] =
   [demo_entry ''/a/b'' ''b'' False True 5, demo_entry ''/a/a'' ''a'' False True 5]"
proof -
  have h: "mtime (demo_entry ''/a/a'' ''a'' False True 5) = mtime (demo_entry ''/a/b'' ''b'' False True 5)"
    "name (demo_entry ''/a/a'' ''a'' False True 5) < name (demo_entry ''/a/b'' ''b'' False True 5)"
    by (simp_all add: demo_entry_def)
  from sort_mtime_ties_descending [OF h] h show ?thesis by blast
qed

theorem changeSortKey_no_effect_witness:
  "rootDirectory demo_start = Some ''/a'' \<and> ''/a'' \<noteq> ''undefined'' \<and>
   sortOption (es (changeSortKey Size demo_start)) = sortOption (es demo_start) \<and>
   items (es (changeSortKey Size demo_start)) = sort_items (sortOption (es demo_start)) (items (es demo_start))"
proof -
  have h: "rootDirectory demo_start = Some ''/a''" "''/a'' \<noteq> ''undefined''"
    by (simp_all add: demo_eval)
  from changeSortKey_no_effect [OF h] h show ?thesis by blast
qed

theorem changeSortKey_twice_witness:
  "rootDirectory demo_start = Some ''/a'' \<and> sortOptions (es demo_start) ''undefined'' = None \<and>
   ''/a'' \<noteq> ''undefined'' \<and>
   sortOptions (es (changeSortKey Name (changeSortKey Name demo_start))) ''/a'' =
     Some \<lparr>key = Name, descending = True\<rparr>"
proof -
  have h: "rootDirectory demo_start = Some ''/a''" "sortOptions (es demo_start) ''undefined'' = None"
    "''/a'' \<noteq> ''undefined''"
    by (simp_all add: demo_eval)
  from changeSortKey_twice [OF h] h show ?thesis by blast
qed

theorem selectIndex_out_of_range_witness:
  "((5::int) < 0 \<or> int (length (filteredItems (es demo_list))) \<le> 5) \<and> selectIndex 5 demo_list = demo_list"
proof -
  have h: "(5::int) < 0 \<or> int (length (filteredItems (es demo_list))) \<le> 5"
    by (simp add: demo_eval filteredItems_def)
  from selectIndex_out_of_range [OF h] h show ?thesis by blast
qed

theorem select_moves_stop_at_ends_witness:
  "selectedIndex (es demo_sel) = int (length (filteredItems (es demo_sel))) - 1 \<and> selectNext demo_sel = demo_sel \<and>
   selectedIndex (es demo_sel) = 0 \<and> selectPrevious demo_sel = demo_sel"
proof -
  have h: "selectedIndex (es demo_sel) = 0" "length (filteredItems (es demo_sel)) = 1"
    by (simp_all add: demo_eval selectedIndex_def isSelected_def filteredItems_def)
  from select_moves_stop_at_ends [of demo_sel] h show ?thesis by simp
qed

theorem selectIndex_selectedIndex_witness:
  "0 \<le> (1::int) \<and> 1 < int (length (filteredItems (es demo_list))) \<and>
   distinct (map path (filteredItems (es demo_list))) \<and>
   selectedIndex (es (selectIndex 1 demo_list)) = 1"
proof -
  have h: "0 \<le> (1::int)" "1 < int (length (filteredItems (es demo_list)))"
    "distinct (map path (filteredItems (es demo_list)))"
    by (simp_all add: demo_eval filteredItems_def)
  from selectIndex_selectedIndex [OF h] h show ?thesis by blast
qed

theorem setScrollTop_in_range_witness:
  "hist_wf (es demo_nav) \<and> histories (es demo_nav) \<noteq> [] \<and>
   histories (es (setScrollTop 42 demo_nav)) =
     (histories (es demo_nav))[nat (historyIndex (es demo_nav)) := (current (es demo_nav))\<lparr>scrollTop := 42\<rparr>] \<and>
   historyIndex (es (setScrollTop 42 demo_nav)) = historyIndex (es demo_nav) \<and>
   hist_wf (es (setScrollTop 42 demo_nav))"
proof -
  have h: "hist_wf (es demo_nav)" "histories (es demo_nav) \<noteq> []"
    by (simp_all add: demo_eval hist_wf_def)
  from setScrollTop_in_range [OF h] h show ?thesis by blast
qed

theorem setScrollTop_empty_witness:
  "histories (es demo_start) = [] \<and> historyIndex (es demo_start) = -1 \<and>
   histories (es (setScrollTop 42 demo_start)) = [\<lparr>directory = None, scrollTop = 42\<rparr>] \<and>
   \<not> hist_wf (es (setScrollTop 42 demo_start))"
proof -
  have h: "histories (es demo_start) = []" "historyIndex (es demo_start) = -1"
    by (simp_all add: demo_eval)
  from setScrollTop_empty [OF h] h show ?thesis by blast
qed

theorem openDirectory_failure_witness:
  "rootDirectory (demo_start\<lparr>rootDirectory := Some ''/a/d''\<rparr>) = Some ''/a/d'' \<and>
   \<not> fs_open (fs (demo_start\<lparr>rootDirectory := Some ''/a/d''\<rparr>)) ''/a/d'' \<and>
   (\<exists>w'. openDirectory (demo_start\<lparr>rootDirectory := Some ''/a/d''\<rparr>) = Ok w' \<and>
      es w' = es (demo_start\<lparr>rootDirectory := Some ''/a/d''\<rparr>) \<and>
      rootDirectory w' = rootDirectory (demo_start\<lparr>rootDirectory := Some ''/a/d''\<rparr>) \<and>
      out w' = out (demo_start\<lparr>rootDirectory := Some ''/a/d''\<rparr>) @
        [OpenItem ''/a/d'', ShowMessage (''Invalid directory '' @ [CHR 0x22] @ ''/a/d'' @ [CHR 0x22])])"
proof -
  have h: "rootDirectory (demo_start\<lparr>rootDirectory := Some ''/a/d''\<rparr>) = Some ''/a/d''"
    "\<not> fs_open (fs (demo_start\<lparr>rootDirectory := Some ''/a/d''\<rparr>)) ''/a/d''"
    by (simp_all add: demo_start_def init_world_def demo_fs_def)
  from openDirectory_failure [OF h] h show ?thesis by blast
qed

theorem changeDirectory_keeps_queryInput_witness:
  "nav_inv demo_nav \<and> Some ''/a/d'' \<noteq> rootDirectory demo_nav \<and> Some ''/a/d'' \<noteq> None \<and>
   queryInput (es demo_nav) = ''img'' \<and>
   (\<exists>w'. changeDirectory (Some ''/a/d'') False demo_nav = Ok w' \<and> query (es w') = [] \<and>
      queryInput (es w') = queryInput (es demo_nav) \<and> query (es (search w')) = queryInput (es demo_nav))"
proof -
  have d: "Some ''/a/d'' \<noteq> rootDirectory demo_nav" "Some ''/a/d'' \<noteq> None"
    "queryInput (es demo_nav) = ''img''"
    by (simp_all add: demo_eval)
  then have d1: "Some ''/a/d'' \<noteq> rootDirectory demo_nav \<or> False" by simp
  from changeDirectory_keeps_queryInput [OF demo_nav_inv d1 d(2)] demo_nav_inv d show ?thesis by blast
qed

theorem showViewer_file_witness:
  "\<not> fs_is_dir (fs demo_start) ''/a/x.png'' \<and>
   fs_list (fs demo_start) (parent_path ''/a/x.png'') = Some demo_a_listing \<and>
   showViewer ''/a/x.png'' demo_start =
     Ok (emit (ViewerShow (map path demo_a_listing) (Some ''/a/x.png'')) demo_start)"
proof -
  have h: "\<not> fs_is_dir (fs demo_start) ''/a/x.png''"
    "fs_list (fs demo_start) (parent_path ''/a/x.png'') = Some demo_a_listing"
    by (simp_all add: demo_start_def init_world_def demo_fs_def parent_path_def strip_slashes_def)
  from showViewer_file [OF h] h show ?thesis by blast
qed

theorem load_success_witness:
  "rootDirectory demo_start = Some ''/a'' \<and> fs_watchable (fs demo_start) ''/a'' \<and>
   fs_list (fs demo_start) ''/a'' = Some demo_a_listing \<and>
   items (es (load demo_start)) =
     sort_items (sortOption (es demo_start)) (filter (\<lambda>f. isDirectory f \<or> isImage f) demo_a_listing) \<and>
   out (load demo_start) = out demo_start @ [FocusExplorerTable]"
proof -
  have h: "rootDirectory demo_start = Some ''/a''" "fs_watchable (fs demo_start) ''/a''"
    "fs_list (fs demo_start) ''/a'' = Some demo_a_listing"
    by (simp_all add: demo_start_def init_world_def demo_fs_def)
  from load_success [OF h] h show ?thesis by blast
qed

theorem selectNext_from_none_witness:
  "selectedIndex (es demo_list) = -1 \<and> filteredItems (es demo_list) \<noteq> [] \<and>
   selectedFilepath (es (selectNext demo_list)) = path (hd (filteredItems (es demo_list)))"
proof -
  have h: "selectedIndex (es demo_list) = -1" "filteredItems (es demo_list) \<noteq> []"
    by (simp_all add: demo_eval selectedIndex_def isSelected_def filteredItems_def)
  from selectNext_from_none [OF h] h show ?thesis by blast
qed

theorem history_partition_witness:
  "hist_wf (es demo_nav) \<and> histories (es demo_nav) \<noteq> [] \<and>
   rev (backDirectories (es demo_nav)) @ [directory (current (es demo_nav))] @ forwardDirectories (es demo_nav) =
   map directory (histories (es demo_nav))"
proof -
  have h: "hist_wf (es demo_nav)" "histories (es demo_nav) \<noteq> []"
    by (simp_all add: demo_eval hist_wf_def)
  from history_partition [OF h] h show ?thesis by blast
qed

theorem selectedIndex_bounds_witness:
  "-1 \<le> selectedIndex (es demo_sel) \<and> selectedIndex (es demo_sel) < int (length (filteredItems (es demo_sel))) \<and>
   0 \<le> selectedIndex (es demo_sel) \<and>
   path (filteredItems (es demo_sel) ! nat (selectedIndex (es demo_sel))) = selectedFilepath (es demo_sel)"
proof -
  have h: "0 \<le> selectedIndex (es demo_sel)"
    by (simp add: demo_eval selectedIndex_def isSelected_def filteredItems_def)
  from selectedIndex_bounds [of "es demo_sel"] h show ?thesis by blast
qed

lemma two_steps_ok:
  "(step intent_ok)\<^sup>*\<^sup>* (init_world (Some ''/a'') demo_fs)
     (run [InitDirectory, ChangeDirectory ''/a/b'' False] (init_world (Some ''/a'') demo_fs))"
proof -
  let ?w1 = "res_state (dispatch InitDirectory (init_world (Some ''/a'') demo_fs))"
  have "step intent_ok ?w1 (res_state (dispatch (ChangeDirectory ''/a/b'' False) ?w1))"
    by (rule step.user) (simp add: intent_ok_def)
  with init_step_ok show ?thesis by simp
qed

theorem reachable_items_kinds_witness:
  "(step any_intent)\<^sup>*\<^sup>* (init_world (Some ''/a'') demo_fs)
     (run [InitDirectory, ChangeDirectory ''/a/b'' False, BackDirectory 0] (init_world (Some ''/a'') demo_fs)) \<and>
   list_all (\<lambda>f. isDirectory f \<or> isImage f)
     (items (es (run [InitDirectory, ChangeDirectory ''/a/b'' False, BackDirectory 0]
                  (init_world (Some ''/a'') demo_fs))))"
proof -
  let ?w = "run [InitDirectory, ChangeDirectory ''/a/b'' False, BackDirectory 0] (init_world (Some ''/a'') demo_fs)"
  have r: "(step any_intent)\<^sup>*\<^sup>* (init_world (Some ''/a'') demo_fs) ?w" by (rule run_reachable)
  from reachable_items_kinds [OF r] have "list_all (\<lambda>f. isDirectory f \<or> isImage f) (items (es ?w))"
    by (simp only: list_all_iff)
  with r show ?thesis by blast
qed

theorem reachable_items_sorted_witness:
  "(step any_intent)\<^sup>*\<^sup>* (init_world (Some ''/a'') demo_fs)
     (run [InitDirectory, ChangeSortKey Mtime] (init_world (Some ''/a'') demo_fs)) \<and>
   sorted_wrt (\<lambda>a b. sort_compare (sortOption (es (run [InitDirectory, ChangeSortKey Mtime]
                                                    (init_world (Some ''/a'') demo_fs)))) a b \<le> 0)
     (items (es (run [InitDirectory, ChangeSortKey Mtime] (init_world (Some ''/a'') demo_fs))))"
proof -
  let ?w = "run [InitDirectory, ChangeSortKey Mtime] (init_world (Some ''/a'') demo_fs)"
  have r: "(step any_intent)\<^sup>*\<^sup>* (init_world (Some ''/a'') demo_fs) ?w" by (rule run_reachable)
  from reachable_items_sorted [OF r] r show ?thesis by blast
qed

theorem reachable_back_to_start_witness:
  "(step intent_ok)\<^sup>*\<^sup>* (init_world (Some ''/a'') demo_fs)
     (run [InitDirectory, ChangeDirectory ''/a/b'' False] (init_world (Some ''/a'') demo_fs)) \<and>
   histories (es (run [InitDirectory, ChangeDirectory ''/a/b'' False] (init_world (Some ''/a'') demo_fs))) \<noteq> [] \<and>
   (step intent_ok)\<^sup>*\<^sup>* (run [InitDirectory, ChangeDirectory ''/a/b'' False] (init_world (Some ''/a'') demo_fs))
     (run [BackDirectory 0] (run [InitDirectory, ChangeDirectory ''/a/b'' False] (init_world (Some ''/a'') demo_fs))) \<and>
   historyIndex (es (run [BackDirectory 0]
     (run [InitDirectory, ChangeDirectory ''/a/b'' False] (init_world (Some ''/a'') demo_fs)))) = 0 \<and>
   rootDirectory (run [BackDirectory 0]
     (run [InitDirectory, ChangeDirectory ''/a/b'' False] (init_world (Some ''/a'') demo_fs))) = Some ''/a''"
proof -
  let ?w = "run [InitDirectory, ChangeDirectory ''/a/b'' False] (init_world (Some ''/a'') demo_fs)"
  have ne: "histories (es ?w) \<noteq> []" and i: "historyIndex (es ?w) = 1"
    and h: "directory (hd (histories (es ?w))) = Some ''/a''"
    by (simp_all add: nav_eval)
  have rep: "replicate (nat (historyIndex (es ?w))) (BackDirectory 0) = [BackDirectory 0]"
    by (simp only: i) simp
  from reachable_back_to_start [OF two_steps_ok ne] have
    "(step intent_ok)\<^sup>*\<^sup>* ?w (run [BackDirectory 0] ?w) \<and> historyIndex (es (run [BackDirectory 0] ?w)) = 0 \<and>
     rootDirectory (run [BackDirectory 0] ?w) = Some ''/a''"
    by (simp only: rep h)
  with two_steps_ok ne show ?thesis by blast
qed
theorem reachable_sorted_by_name_witness:
  "(\<lambda>w w'. step intent_ok w w' \<and> rootDirectory w' \<noteq> Some ''undefined'')\<^sup>*\<^sup>*
     (init_world (Some ''/a'') demo_fs)
     (changeSortKey Mtime (res_state (dispatch InitDirectory (init_world (Some ''/a'') demo_fs)))) \<and>
   sortOption (es (changeSortKey Mtime (res_state (dispatch InitDirectory (init_world (Some ''/a'') demo_fs))))) =
     default_sort_option \<and>
   sorted (map name (items (es (changeSortKey Mtime
     (res_state (dispatch InitDirectory (init_world (Some ''/a'') demo_fs)))))))"
proof -
  let ?w0 = "init_world (Some ''/a'') demo_fs"
  let ?w1 = "res_state (dispatch InitDirectory ?w0)"
  let ?R = "\<lambda>w w'. step intent_ok w w' \<and> rootDirectory w' \<noteq> Some ''undefined''"
  have d1: "rootDirectory ?w1 = Some ''/a''" by (simp add: nav_eval)
  have s1: "step intent_ok ?w0 ?w1" by (rule step.user) (simp add: intent_ok_def)
  have "step intent_ok ?w1 (res_state (dispatch (ChangeSortKey Mtime) ?w1))"
    by (rule step.user) (simp add: intent_ok_def)
  then have s2: "step intent_ok ?w1 (changeSortKey Mtime ?w1)"
    by (simp only: dispatch.simps res_state.simps)
  have d2: "rootDirectory (changeSortKey Mtime ?w1) = Some ''/a''"
    by (simp only: changeSortKey_prefs(1) d1)
  have r1: "?R ?w0 ?w1"
  proof (rule conjI)
    show "rootDirectory ?w1 \<noteq> Some ''undefined''" by (simp only: d1) simp
  qed (rule s1)
  have r2: "?R ?w1 (changeSortKey Mtime ?w1)"
  proof (rule conjI)
    show "rootDirectory (changeSortKey Mtime ?w1) \<noteq> Some ''undefined''" by (simp only: d2) simp
  qed (rule s2)
  have r: "?R\<^sup>*\<^sup>* ?w0 (changeSortKey Mtime ?w1)"
    by (rule rtranclp.rtrancl_into_rtrancl [of ?R, OF r_into_rtranclp [of ?R, OF r1] r2])
  from reachable_sorted_by_name [OF r] have
    "sortOption (es (changeSortKey Mtime ?w1)) = default_sort_option \<and>
     sorted (map name (items (es (changeSortKey Mtime ?w1))))" .
  with r show ?thesis by (rule conjI)
qed

theorem reload_absorbed_witness:
  "0 \<le> (1::int) \<and> 1 < int (length (histories (es demo_nav))) \<and>
   es (res_state (restoreDirectory 1 (load demo_nav))) = es (res_state (restoreDirectory 1 demo_nav)) \<and>
   rootDirectory (res_state (restoreDirectory 1 (load demo_nav))) =
     rootDirectory (res_state (restoreDirectory 1 demo_nav))"
proof -
  have h: "0 \<le> (1::int)" "1 < int (length (histories (es demo_nav)))" by (simp_all add: demo_eval)
  from reload_absorbed [OF h] h show ?thesis by blast
qed

theorem selectNext_terminates_witness:
  "distinct (map path (filteredItems (es demo_list))) \<and>
   (\<exists>w'. while_option (\<lambda>v. selectNext v \<noteq> v) selectNext demo_list = Some w' \<and>
         selectedIndex (es w') = 1 \<and> filteredItems (es w') = filteredItems (es demo_list))"
proof -
  have fi: "filteredItems (es demo_list) =
              [demo_entry ''/a/b'' ''b'' True False 3, demo_entry ''/a/x.png'' ''x.png'' False True 2]"
    by (simp add: demo_list_def demo_start_def init_world_def init_state_def filteredItems_def)
  then have d: "distinct (map path (filteredItems (es demo_list)))" by (simp add: demo_entry_def)
  from selectNext_terminates [OF d] fi d show ?thesis by simp
qed

end
